theory Spec2Isabelle
  imports Complex_Main
begin

section \<open>Document reader with speech playback: the playback core of script.js\<close>

text \<open>
  The development embeds the playback and synchronisation code of \<^verbatim>\<open>script.js\<close>:
  chunking of the document text, the jump to a character index, the speech request with
  its boundary, end and error handlers, the auto-advance from chunk to chunk and the
  restart after a settings change. A JavaScript string is a list of code units; the
  element type is left open, since the code only measures and slices strings.
\<close>

subsection \<open>Strings and numbers of the source language\<close>

text \<open>
  \<^verbatim>\<open>String.prototype.slice(start, end)\<close>: a negative index counts from the end, both
  indices are clamped to the string, and an empty span gives the empty string.
\<close>

definition js_slice :: "'c list \<Rightarrow> int \<Rightarrow> int \<Rightarrow> 'c list" where
  "js_slice s start fin =
     (let len = int (length s);
          frm = (if start < 0 then max (len + start) 0 else min start len);
          upto = (if fin < 0 then max (len + fin) 0 else min fin len)
      in take (nat (max (upto - frm) 0)) (drop (nat frm) s))"

text \<open>\<^verbatim>\<open>slice(start)\<close> with one argument runs to the end of the string.\<close>

definition js_slice_from :: "'c list \<Rightarrow> int \<Rightarrow> 'c list" where
  "js_slice_from s start = js_slice s start (int (length s))"

text \<open>
  The value of \<^verbatim>\<open>Number(x)\<close>: \<open>None\<close> is NaN. \<^verbatim>\<open>n || d\<close> on a number takes
  \<open>d\<close> when \<open>n\<close> is falsy, that is NaN or zero.
\<close>

type_synonym jsnum = "real option"

definition num_or :: "jsnum \<Rightarrow> real \<Rightarrow> real" where
  "num_or n d = (case n of None \<Rightarrow> d | Some v \<Rightarrow> if v = 0 then d else v)"

text \<open>
  A property of an event object that holds an integer or is absent (\<open>None\<close>):
  \<^verbatim>\<open>p || d\<close> takes \<open>d\<close> when the property is absent or zero.
\<close>

definition int_or :: "int option \<Rightarrow> int \<Rightarrow> int" where
  "int_or n d = (case n of None \<Rightarrow> d | Some v \<Rightarrow> if v = 0 then d else v)"

subsection \<open>Chunking\<close>

text \<open>\<^verbatim>\<open>let internalChunkSize = 3000\<close>; the variable is never assigned again.\<close>

definition internalChunkSize :: nat where
  "internalChunkSize = 3000"

text \<open>
  The loop of \<^verbatim>\<open>buildChunks\<close>:
  \<^verbatim>\<open>for (let i=0;i<currentText.length;i+=chunkSize) currentChunks.push(currentText.slice(i, i+chunkSize))\<close>,
  with the list built so far as accumulator.
\<close>

function buildChunks_loop :: "'c list \<Rightarrow> nat \<Rightarrow> 'c list list \<Rightarrow> 'c list list" where
  "buildChunks_loop doc i acc =
     (if i < length doc
      then buildChunks_loop doc (i + internalChunkSize)
             (acc @ [js_slice doc (int i) (int (i + internalChunkSize))])
      else acc)"
  by pat_completeness auto
termination
  by (relation "measure (\<lambda>(doc, i, acc). length doc - i)")
     (auto simp: internalChunkSize_def)

definition chunks_of :: "'c list \<Rightarrow> 'c list list" where
  "chunks_of doc = buildChunks_loop doc 0 []"

text \<open>The number of chunks the loop adds when it starts at index \<open>i\<close>.\<close>

definition chunks_left :: "nat \<Rightarrow> nat \<Rightarrow> nat" where
  "chunks_left len i = (len - i + internalChunkSize - 1) div internalChunkSize"

subsection \<open>The page state\<close>

text \<open>An entry of \<^verbatim>\<open>speechSynthesis.getVoices()\<close>.\<close>

record voice =
  vname :: string
  vlang :: string
  vdefault :: bool

text \<open>
  The function that \<^verbatim>\<open>playFromCurrentChunk\<close> passes to \<^verbatim>\<open>speakChunk\<close> as
  \<^verbatim>\<open>onend\<close>: the auto-advance closure. It is the only function ever passed.
\<close>

datatype callback = AdvanceChunk

text \<open>
  A \<^verbatim>\<open>SpeechSynthesisUtterance\<close> object. \<open>ubase\<close> is the \<^verbatim>\<open>baseOffset\<close> that the
  \<^verbatim>\<open>onboundary\<close> closure captured; \<open>uonend\<close> is \<open>None\<close> when the handler is null and
  \<open>Some cb\<close> when it is the arrow function that calls \<open>cb\<close> if \<open>cb\<close> is a function;
  \<open>uonerror\<close> tells whether the error handler is installed.
\<close>

record 'c utter =
  utext :: "'c list"
  urate :: real
  uvolume :: real
  uvoice :: "voice option"
  ubase :: int
  uonend :: "callback option option"
  uonerror :: bool

text \<open>\<^verbatim>\<open>setTimeout(() => playFromCurrentChunk(offset), delay)\<close>: the delay and the offset.\<close>

datatype timer = PlayAfter nat int

text \<open>
  What the page does to the outside, in program order: calls of the speech engine,
  the detaching of an utterance's end and error handlers, the alert and the console.
\<close>

datatype act =
    EngineSpeak nat
  | EngineCancel
  | EnginePause
  | EngineResume
  | HandlersCleared nat
  | AlertNoText
  | ConsoleError

text \<open>The fields of a boundary event that the handler reads; \<open>None\<close> is an absent field.\<close>

record boundary_event =
  charIndex :: "int option"
  charLength :: "int option"

text \<open>
  The global variables of the script, the parts of the page it reads and writes, and the
  environment: the utterance objects created so far (an utterance is named by its
  position in \<open>utterances\<close>), the queue of the speech engine, its paused flag, the pending
  timers and the trace of effects. \<open>pasteBox_selection\<close> holds the arguments of the last
  \<^verbatim>\<open>setSelectionRange\<close> call; \<open>rateSlider_value\<close> and \<open>volumeSlider_value\<close> hold
  \<^verbatim>\<open>Number(slider.value)\<close>. The PDF viewer, scrolling, the speed label and the button's
  classes are not part of the state.
\<close>

record 'c reader =
  currentText :: "'c list"
  currentChunks :: "'c list list"
  currentIndex :: int
  isPlaying :: bool
  utterance :: "nat option"
  voices :: "voice list"
  lastBoundaryGlobalStart :: int
  restartInFlight :: bool
  pasteBox_value :: "'c list"
  pasteBox_selection :: "int \<times> int"
  rateSlider_value :: jsnum
  volumeSlider_value :: jsnum
  voiceSelect_value :: string
  utterances :: "'c utter list"
  engine_queue :: "nat list"
  engine_paused :: bool
  timers :: "timer list"
  trace :: "act list"

subsection \<open>The speech engine as the script uses it\<close>

text \<open>
  \<^verbatim>\<open>speak\<close> appends the utterance to the engine's queue, \<^verbatim>\<open>cancel\<close> removes every
  utterance from the queue and leaves the paused flag alone, \<^verbatim>\<open>pause\<close> and
  \<^verbatim>\<open>resume\<close> set and clear the flag; \<^verbatim>\<open>speaking\<close> is true while the queue is not empty.
\<close>

definition speechSynthesis_speak :: "nat \<Rightarrow> 'c reader \<Rightarrow> 'c reader" where
  "speechSynthesis_speak u s =
     s\<lparr>engine_queue := engine_queue s @ [u], trace := trace s @ [EngineSpeak u]\<rparr>"

definition speechSynthesis_cancel :: "'c reader \<Rightarrow> 'c reader" where
  "speechSynthesis_cancel s = s\<lparr>engine_queue := [], trace := trace s @ [EngineCancel]\<rparr>"

definition speechSynthesis_pause :: "'c reader \<Rightarrow> 'c reader" where
  "speechSynthesis_pause s = s\<lparr>engine_paused := True, trace := trace s @ [EnginePause]\<rparr>"

definition speechSynthesis_resume :: "'c reader \<Rightarrow> 'c reader" where
  "speechSynthesis_resume s = s\<lparr>engine_paused := False, trace := trace s @ [EngineResume]\<rparr>"

definition speechSynthesis_speaking :: "'c reader \<Rightarrow> bool" where
  "speechSynthesis_speaking s = (engine_queue s \<noteq> [])"

subsection \<open>Text handling\<close>

definition buildChunks :: "'c reader \<Rightarrow> 'c reader" where
  "buildChunks s = s\<lparr>currentChunks := chunks_of (currentText s)\<rparr>"

text \<open>\<^verbatim>\<open>setTextViewer(text)\<close>; an absent text is the empty list.\<close>

definition setTextViewer :: "'c list \<Rightarrow> 'c reader \<Rightarrow> 'c reader" where
  "setTextViewer doc s =
     buildChunks (s\<lparr>currentText := doc, pasteBox_value := doc, currentIndex := 0\<rparr>)"

text \<open>
  The end of \<^verbatim>\<open>renderPDFToViewer\<close>, where \<open>accumulated\<close> is the text of the extracted
  pages: \<^verbatim>\<open>currentText = accumulated; pasteBox.value = accumulated; currentIndex = 0; buildChunks()\<close>.
\<close>

definition renderPDFToViewer :: "'c list \<Rightarrow> 'c reader \<Rightarrow> 'c reader" where
  "renderPDFToViewer accumulated s =
     buildChunks (s\<lparr>currentText := accumulated, pasteBox_value := accumulated,
                     currentIndex := 0\<rparr>)"

text \<open>The \<^verbatim>\<open>input\<close> listener of the text area, after the user changed its value to \<open>v\<close>.\<close>

definition pasteBox_input :: "'c list \<Rightarrow> 'c reader \<Rightarrow> 'c reader" where
  "pasteBox_input v s =
     buildChunks (s\<lparr>pasteBox_value := v, currentText := v, currentIndex := 0\<rparr>)"

subsection \<open>Playback\<close>

text \<open>
  \<^verbatim>\<open>voices.find(vo => vo.name === selName) || voices.find(vo => vo.default) || voices[0]\<close>
\<close>

definition pick_voice :: "voice list \<Rightarrow> string \<Rightarrow> voice option" where
  "pick_voice vs selName =
     (case find (\<lambda>vo. vname vo = selName) vs of
        Some v \<Rightarrow> Some v
      | None \<Rightarrow>
          (case find vdefault vs of
             Some v \<Rightarrow> Some v
           | None \<Rightarrow> (case vs of [] \<Rightarrow> None | v # _ \<Rightarrow> Some v)))"

text \<open>\<^verbatim>\<open>utterance.onend = null; utterance.onerror = null\<close> on the utterance object \<open>u\<close>.\<close>

definition clear_handlers :: "nat \<Rightarrow> 'c reader \<Rightarrow> 'c reader" where
  "clear_handlers u s =
     s\<lparr>utterances := (utterances s)[u := (utterances s ! u)\<lparr>uonend := None, uonerror := False\<rparr>],
       trace := trace s @ [HandlersCleared u]\<rparr>"

text \<open>
  \<^verbatim>\<open>speakChunk(text, onend, baseOffsetOverride)\<close>. \<open>baseOffsetOverride\<close> is \<open>None\<close> when
  the argument is not a number.
\<close>

definition speakChunk ::
  "'c list \<Rightarrow> callback option \<Rightarrow> int option \<Rightarrow> 'c reader \<Rightarrow> 'c reader" where
  "speakChunk chunk onend baseOffsetOverride s =
     (let s1 = (case utterance s of
                  None \<Rightarrow> s
                | Some u \<Rightarrow> (speechSynthesis_cancel (clear_handlers u s))\<lparr>utterance := None\<rparr>);
          new = length (utterances s1);
          v = pick_voice (voices s1) (voiceSelect_value s1);
          baseOffset = (case baseOffsetOverride of
                          Some b \<Rightarrow> b
                        | None \<Rightarrow> currentIndex s1 * int internalChunkSize);
          obj = \<lparr>utext = chunk,
                 urate = num_or (rateSlider_value s1) 1,
                 uvolume = num_or (volumeSlider_value s1) 1,
                 uvoice = v,
                 ubase = baseOffset,
                 uonend = Some onend,
                 uonerror = True\<rparr>;
          s2 = s1\<lparr>utterances := utterances s1 @ [obj], utterance := Some new,
                  lastBoundaryGlobalStart := baseOffset\<rparr>
      in speechSynthesis_speak new s2)"

text \<open>
  \<^verbatim>\<open>updatePlayPauseUI\<close>: when not playing, the selection collapses to its end
  (\<^verbatim>\<open>setSelectionRange(end, end)\<close> with \<^verbatim>\<open>end = pasteBox.selectionEnd || 0\<close>).
\<close>

definition updatePlayPauseUI :: "'c reader \<Rightarrow> 'c reader" where
  "updatePlayPauseUI s =
     (if isPlaying s then s
      else let e = int_or (Some (snd (pasteBox_selection s))) 0
           in s\<lparr>pasteBox_selection := (e, e)\<rparr>)"

text \<open>
  \<^verbatim>\<open>playFromCurrentChunk(offsetWithinChunk = 0)\<close>. The index is inside the list where the
  chunk is read, so \<^verbatim>\<open>currentChunks[currentIndex] || ''\<close> is the chunk itself.
\<close>

definition playFromCurrentChunk :: "int \<Rightarrow> 'c reader \<Rightarrow> 'c reader" where
  "playFromCurrentChunk offsetWithinChunk s =
     (let s1 = (if currentChunks s = [] then buildChunks s else s);
          s2 = (if currentIndex s1 < 0 then s1\<lparr>currentIndex := 0\<rparr> else s1)
      in if currentIndex s2 \<ge> int (length (currentChunks s2))
         then s2\<lparr>isPlaying := False\<rparr>
         else
           let s3 = s2\<lparr>isPlaying := True, restartInFlight := False\<rparr>;
               chunkFull = currentChunks s3 ! nat (currentIndex s3);
               speakOffset = max 0 (min offsetWithinChunk (int (length chunkFull)));
               chunk = (if speakOffset \<noteq> 0 then js_slice_from chunkFull speakOffset
                        else chunkFull);
               baseOffset = currentIndex s3 * int internalChunkSize + speakOffset
           in speakChunk chunk (Some AdvanceChunk) (Some baseOffset) (updatePlayPauseUI s3))"

text \<open>
  \<^verbatim>\<open>jumpToCharIndex(idx)\<close>. The index is never negative after the clamp, so
  \<^verbatim>\<open>Math.floor(idx / chunkSize)\<close> is integer division.
\<close>

definition jumpToCharIndex :: "int \<Rightarrow> 'c reader \<Rightarrow> 'c reader" where
  "jumpToCharIndex idx0 s =
     (if currentText s = [] then s
      else
        let idx = max 0 (min (int (length (currentText s)) - 1) idx0);
            chunkSize = int internalChunkSize;
            s1 = s\<lparr>currentIndex := idx div chunkSize\<rparr>;
            baseOffset = currentIndex s1 * chunkSize;
            offsetWithinChunk = max 0 (idx - baseOffset)
        in playFromCurrentChunk offsetWithinChunk s1)"

subsection \<open>Handlers of an utterance\<close>

text \<open>
  The closure passed as \<^verbatim>\<open>onend\<close>: advance to the next chunk, and either schedule it
  after 120 ms or stop.
\<close>

definition advance_chunk :: "'c reader \<Rightarrow> 'c reader" where
  "advance_chunk s =
     (let s1 = s\<lparr>currentIndex := currentIndex s + 1\<rparr>
      in if currentIndex s1 < int (length (currentChunks s1)) \<and> isPlaying s1
         then s1\<lparr>timers := timers s1 @ [PlayAfter 120 0]\<rparr>
         else updatePlayPauseUI (s1\<lparr>isPlaying := False\<rparr>))"

definition run_callback :: "callback \<Rightarrow> 'c reader \<Rightarrow> 'c reader" where
  "run_callback cb s = (case cb of AdvanceChunk \<Rightarrow> advance_chunk s)"

text \<open>The \<^verbatim>\<open>onend\<close> property of utterance \<open>u\<close>, called by the engine.\<close>

definition utterance_onend :: "nat \<Rightarrow> 'c reader \<Rightarrow> 'c reader" where
  "utterance_onend u s =
     (case uonend (utterances s ! u) of
        None \<Rightarrow> s
      | Some None \<Rightarrow> s
      | Some (Some cb) \<Rightarrow> run_callback cb s)"

text \<open>The \<^verbatim>\<open>onerror\<close> property of utterance \<open>u\<close>.\<close>

definition utterance_onerror :: "nat \<Rightarrow> 'c reader \<Rightarrow> 'c reader" where
  "utterance_onerror u s =
     (if uonerror (utterances s ! u)
      then s\<lparr>isPlaying := False, trace := trace s @ [ConsoleError]\<rparr>
      else s)"

text \<open>
  The \<^verbatim>\<open>onboundary\<close> property of utterance \<open>u\<close>; it is never detached. The event carries
  a character index when \<^verbatim>\<open>typeof e.charIndex === 'number'\<close>.
\<close>

definition utterance_onboundary :: "nat \<Rightarrow> boundary_event \<Rightarrow> 'c reader \<Rightarrow> 'c reader" where
  "utterance_onboundary u e s =
     (case charIndex e of
        None \<Rightarrow> s
      | Some ci \<Rightarrow>
          let baseOffset = ubase (utterances s ! u);
              start = baseOffset + int_or (Some ci) 0;
              fin = start + int_or (charLength e) 1
          in s\<lparr>lastBoundaryGlobalStart := start, pasteBox_selection := (start, fin)\<rparr>)"

subsection \<open>Buttons and settings\<close>

definition playPauseBtn_click :: "'c reader \<Rightarrow> 'c reader" where
  "playPauseBtn_click s =
     (if currentText s = [] then s\<lparr>trace := trace s @ [AlertNoText]\<rparr>
      else if \<not> isPlaying s then
        (if engine_paused s
         then updatePlayPauseUI ((speechSynthesis_resume s)\<lparr>isPlaying := True\<rparr>)
         else playFromCurrentChunk 0 s)
      else
        updatePlayPauseUI
          ((if speechSynthesis_speaking s then speechSynthesis_pause s else s)
             \<lparr>isPlaying := False\<rparr>))"

definition stopBtn_click :: "'c reader \<Rightarrow> 'c reader" where
  "stopBtn_click s =
     updatePlayPauseUI
       ((speechSynthesis_cancel s)
          \<lparr>isPlaying := False, currentIndex := 0, pasteBox_selection := (0, 0)\<rparr>)"

text \<open>
  \<^verbatim>\<open>restartWithNewSettingsFromCurrentPosition(force)\<close>; \<^verbatim>\<open>lastBoundaryGlobalStart\<close> is
  always a number.
\<close>

definition restartWithNewSettingsFromCurrentPosition :: "bool \<Rightarrow> 'c reader \<Rightarrow> 'c reader" where
  "restartWithNewSettingsFromCurrentPosition force s =
     (if restartInFlight s then s
      else
        let canRestart = ((isPlaying s \<or> force) \<and> currentText s \<noteq> [])
        in if \<not> canRestart then s
           else
             let chunkSize = int internalChunkSize;
                 fallback = currentIndex s * chunkSize;
                 resumeAt = (if lastBoundaryGlobalStart s \<ge> 0
                             then lastBoundaryGlobalStart s else fallback);
                 s1 = (case utterance s of None \<Rightarrow> s | Some u \<Rightarrow> clear_handlers u s);
                 s2 = s1\<lparr>restartInFlight := True\<rparr>;
                 s3 = speechSynthesis_cancel s2
             in if \<not> isPlaying s3 \<and> \<not> force then s3
                else
                  let newIndex = max 0 (resumeAt div chunkSize);
                      newBase = newIndex * chunkSize;
                      offset = max 0 (resumeAt - newBase);
                      s4 = s3\<lparr>currentIndex := newIndex\<rparr>
                  in s4\<lparr>timers := timers s4 @ [PlayAfter 60 offset]\<rparr>)"

text \<open>
  The \<^verbatim>\<open>change\<close> listeners: the control already holds its new value when the listener
  runs. The voice listener forces the restart, the two sliders do not.
\<close>

definition voiceSelect_change :: "string \<Rightarrow> 'c reader \<Rightarrow> 'c reader" where
  "voiceSelect_change v s =
     restartWithNewSettingsFromCurrentPosition True (s\<lparr>voiceSelect_value := v\<rparr>)"

definition rateSlider_change :: "jsnum \<Rightarrow> 'c reader \<Rightarrow> 'c reader" where
  "rateSlider_change v s =
     restartWithNewSettingsFromCurrentPosition False (s\<lparr>rateSlider_value := v\<rparr>)"

definition volumeSlider_change :: "jsnum \<Rightarrow> 'c reader \<Rightarrow> 'c reader" where
  "volumeSlider_change v s =
     restartWithNewSettingsFromCurrentPosition False (s\<lparr>volumeSlider_value := v\<rparr>)"

text \<open>
  \<^verbatim>\<open>populateVoiceList\<close>: the voices the browser reports and the value the rebuilt
  selection box then shows.
\<close>

definition populateVoiceList :: "voice list \<Rightarrow> string \<Rightarrow> 'c reader \<Rightarrow> 'c reader" where
  "populateVoiceList vs shown s = s\<lparr>voices := vs, voiceSelect_value := shown\<rparr>"

subsection \<open>Events\<close>

text \<open>
  Everything runs on one thread, one callback at a time. An event is a user action, a
  timer that fires, or the engine calling a handler of an utterance object. The engine
  may call the handlers of any utterance created so far, also of one that was cancelled;
  an end or error event takes the utterance out of the queue. Pending timers may fire in
  any order.
\<close>

datatype 'c event =
    LoadText "'c list"
  | LoadPDF "'c list"
  | PasteInput "'c list"
  | DblClick int
  | ClickPlayPause
  | ClickStop
  | VoiceChange string
  | RateChange jsnum
  | VolumeChange jsnum
  | VoicesChanged "voice list" string
  | TimerFire nat
  | EngineBoundary nat boundary_event
  | EngineEnd nat
  | EngineError nat

definition engine_done :: "nat \<Rightarrow> 'c reader \<Rightarrow> 'c reader" where
  "engine_done u s = s\<lparr>engine_queue := filter (\<lambda>x. x \<noteq> u) (engine_queue s)\<rparr>"

definition fire_timer :: "nat \<Rightarrow> 'c reader \<Rightarrow> 'c reader" where
  "fire_timer k s =
     (if k < length (timers s)
      then (case timers s ! k of
              PlayAfter d off \<Rightarrow>
                playFromCurrentChunk off
                  (s\<lparr>timers := take k (timers s) @ drop (Suc k) (timers s)\<rparr>))
      else s)"

fun step :: "'c event \<Rightarrow> 'c reader \<Rightarrow> 'c reader" where
  "step (LoadText doc) s = setTextViewer doc s"
| "step (LoadPDF doc) s = renderPDFToViewer doc s"
| "step (PasteInput v) s = pasteBox_input v s"
| "step (DblClick idx) s = jumpToCharIndex idx s"
| "step ClickPlayPause s = playPauseBtn_click s"
| "step ClickStop s = stopBtn_click s"
| "step (VoiceChange v) s = voiceSelect_change v s"
| "step (RateChange v) s = rateSlider_change v s"
| "step (VolumeChange v) s = volumeSlider_change v s"
| "step (VoicesChanged vs shown) s = populateVoiceList vs shown s"
| "step (TimerFire k) s = fire_timer k s"
| "step (EngineBoundary u e) s =
     (if u < length (utterances s) then utterance_onboundary u e s else s)"
| "step (EngineEnd u) s =
     (if u < length (utterances s) then utterance_onend u (engine_done u s) else s)"
| "step (EngineError u) s =
     (if u < length (utterances s) then utterance_onerror u (engine_done u s) else s)"

text \<open>The events of a list, one after the other.\<close>

fun run :: "'c event list \<Rightarrow> 'c reader \<Rightarrow> 'c reader" where
  "run [] s = s"
| "run (e # es) s = run es (step e s)"

text \<open>
  The state when the script has loaded: the initial values of the globals; the rate
  slider is set to 1 by \<^verbatim>\<open>window.onload\<close>. The volume slider starts at the value the
  page gives it, here 1; a \<open>VolumeChange\<close> event, which does nothing else in this state,
  gives it any other value.
\<close>

definition initial :: "'c reader" where
  "initial =
     \<lparr>currentText = [], currentChunks = [], currentIndex = 0, isPlaying = False,
      utterance = None, voices = [], lastBoundaryGlobalStart = 0,
      restartInFlight = False, pasteBox_value = [], pasteBox_selection = (0, 0),
      rateSlider_value = Some 1, volumeSlider_value = Some 1, voiceSelect_value = [],
      utterances = [], engine_queue = [], engine_paused = False, timers = [],
      trace = []\<rparr>"

subsection \<open>Invariants and kinds of events\<close>

text \<open>The chunks are those of the current text.\<close>

definition chunks_synced :: "'c reader \<Rightarrow> bool" where
  "chunks_synced s = (currentChunks s = chunks_of (currentText s))"

text \<open>
  The engine's queue is empty or holds exactly the utterance that the variable
  \<^verbatim>\<open>utterance\<close> refers to.
\<close>

definition one_request :: "'c reader \<Rightarrow> bool" where
  "one_request s =
     (engine_queue s = []
      \<or> (utterance s \<noteq> None \<and> engine_queue s = [the (utterance s)]))"

text \<open>
  The tracked cursor \<^verbatim>\<open>lastBoundaryGlobalStart\<close> is the base offset of the current
  utterance.
\<close>

definition cursor_at_base :: "'c reader \<Rightarrow> bool" where
  "cursor_at_base s =
     (utterance s = None
      \<or> lastBoundaryGlobalStart s = ubase (utterances s ! the (utterance s)))"

fun is_boundary :: "'c event \<Rightarrow> bool" where
  "is_boundary (EngineBoundary u e) = True"
| "is_boundary _ = False"

fun is_slider_change :: "'c event \<Rightarrow> bool" where
  "is_slider_change (RateChange v) = True"
| "is_slider_change (VolumeChange v) = True"
| "is_slider_change _ = False"

subsection \<open>Example states\<close>

text \<open>A document of 7000 characters and the page after loading it.\<close>

definition doc7000 :: string where
  "doc7000 = replicate 7000 CHR ''a''"

definition loaded7000 :: "char reader" where
  "loaded7000 = setTextViewer doc7000 initial"

text \<open>The page after loading the document and a click on the play/pause button: playing.\<close>

definition playing7000 :: "char reader" where
  "playing7000 = run [LoadText doc7000, ClickPlayPause] initial"

text \<open>The same page after a click on the play/pause button: paused.\<close>

definition paused7000 :: "char reader" where
  "paused7000 = run [ClickPlayPause] playing7000"

subsection \<open>Facts about slicing and chunking\<close>

declare buildChunks_loop.simps [simp del]

lemma internalChunkSize_pos: "0 < internalChunkSize"
  by (simp add: internalChunkSize_def)

lemma js_slice_window:
  assumes le: "i \<le> length s"
  shows "js_slice s (int i) (int i + int n) = take n (drop i s)"
proof -
  have span: "min (int i + int n) (int (length s)) - int i = int (min n (length s - i))"
    using le by (auto simp: min_def)
  have "take (min n (length s - i)) (drop i s) = take n (drop i s)"
    by (cases "n \<le> length s - i") (simp_all add: min_def)
  with span le show ?thesis
    by (simp add: js_slice_def Let_def min_absorb1)
qed

lemma js_slice_from_drop:
  "0 \<le> k \<Longrightarrow> js_slice_from s k = drop (nat k) s"
  by (auto simp: js_slice_from_def js_slice_def Let_def min_def max_def)

lemma ceil_div_step:
  fixes c :: nat
  assumes c: "0 < c" and lt: "i < len"
  shows "(len - i + c - 1) div c = Suc ((len - (i + c) + c - 1) div c)"
proof -
  define m where "m = len - i - 1"
  have l: "len - i + c - 1 = m + c" using lt by (simp add: m_def)
  have lhs: "(len - i + c - 1) div c = Suc (m div c)"
    unfolding l using c by simp
  show ?thesis
  proof (cases "i + c \<le> len")
    case True
    then have "len - (i + c) + c - 1 = m" using c lt by (simp add: m_def)
    with lhs show ?thesis by simp
  next
    case False
    then have "len - (i + c) + c - 1 = c - 1" "m < c" using c lt by (simp_all add: m_def)
    with lhs c show ?thesis by simp
  qed
qed

lemma ceil_div_covers:
  fixes c :: nat
  assumes c: "0 < c"
  shows "len \<le> (len + c - 1) div c * c"
proof -
  have "len + c - 1 = (len + c - 1) div c * c + (len + c - 1) mod c" by simp
  moreover have "(len + c - 1) mod c < c" using c by simp
  ultimately show ?thesis by linarith
qed

lemma ceil_div_index:
  fixes c :: nat
  assumes c: "0 < c" and k: "k < (len + c - 1) div c"
  shows "k * c < len"
proof -
  from k have "Suc k \<le> (len + c - 1) div c" by simp
  then have "Suc k * c \<le> (len + c - 1) div c * c" by (rule mult_le_mono1)
  also have "\<dots> \<le> len + c - 1" by simp
  finally show ?thesis using c by simp
qed

lemma ceil_div_offset:
  fixes c :: nat
  assumes c: "0 < c" and k: "p < len"
  shows "p div c < (len + c - 1) div c"
proof -
  have "p div c \<le> (len - 1) div c" using k by (intro div_le_mono) simp
  also have "\<dots> < Suc ((len - 1) div c)" by simp
  also have "\<dots> = (len - 1 + c) div c" using c by simp
  also have "len - 1 + c = len + c - 1" using k by simp
  finally show ?thesis .
qed

lemma chunks_left_done: "\<not> i < len \<Longrightarrow> chunks_left len i = 0"
  using internalChunkSize_pos by (simp add: chunks_left_def)

lemma chunks_left_step:
  "i < len \<Longrightarrow> chunks_left len i = Suc (chunks_left len (i + internalChunkSize))"
  unfolding chunks_left_def by (rule ceil_div_step [OF internalChunkSize_pos])

lemma buildChunks_loop_map:
  "buildChunks_loop doc i acc =
     acc @ map (\<lambda>k. take internalChunkSize (drop (i + k * internalChunkSize) doc))
             [0..<chunks_left (length doc) i]"
proof (induction doc i acc rule: buildChunks_loop.induct)
  case (1 doc i acc)
  show ?case
  proof (cases "i < length doc")
    case True
    have "map (\<lambda>k. take internalChunkSize (drop (i + k * internalChunkSize) doc))
            [0..<Suc (chunks_left (length doc) (i + internalChunkSize))]
          = take internalChunkSize (drop i doc) #
            map (\<lambda>k. take internalChunkSize
                       (drop (i + internalChunkSize + k * internalChunkSize) doc))
              [0..<chunks_left (length doc) (i + internalChunkSize)]"
      by (simp add: map_upt_Suc add.assoc del: upt_Suc)
    with True "1.IH" show ?thesis
      by (subst buildChunks_loop.simps)
         (simp add: chunks_left_step js_slice_window del: upt_Suc)
  next
    case False
    then show ?thesis
      by (subst buildChunks_loop.simps) (simp add: chunks_left_done)
  qed
qed

lemma chunks_of_map:
  "chunks_of doc =
     map (\<lambda>k. take internalChunkSize (drop (k * internalChunkSize) doc))
       [0..<chunks_left (length doc) 0]"
  by (simp add: chunks_of_def buildChunks_loop_map)

lemma length_chunks_of: "length (chunks_of doc) = chunks_left (length doc) 0"
  by (simp add: chunks_of_map)

lemma nth_chunks_of:
  "k < length (chunks_of doc) \<Longrightarrow>
     chunks_of doc ! k = take internalChunkSize (drop (k * internalChunkSize) doc)"
  by (simp add: chunks_of_map)

lemma chunk_index_in_doc:
  "k < chunks_left len 0 \<Longrightarrow> k * internalChunkSize < len"
  unfolding chunks_left_def using ceil_div_index [OF internalChunkSize_pos, of k len] by simp

lemma chunk_index_of_offset:
  "p < len \<Longrightarrow> p div internalChunkSize < chunks_left len 0"
  unfolding chunks_left_def using ceil_div_offset [OF internalChunkSize_pos, of p len] by simp

lemma concat_chunk_prefix:
  "concat (map (\<lambda>k. take internalChunkSize (drop (k * internalChunkSize) doc)) [0..<n])
     = take (n * internalChunkSize) doc"
proof (induction n)
  case 0
  show ?case by simp
next
  case (Suc n)
  have "take (n * internalChunkSize + internalChunkSize) doc =
          take (n * internalChunkSize) doc @
          take internalChunkSize (drop (n * internalChunkSize) doc)"
    by (rule take_add)
  with Suc show ?case
    by (simp add: add.commute)
qed

lemma concat_chunks_of: "concat (chunks_of doc) = doc"
proof -
  have "length doc \<le> chunks_left (length doc) 0 * internalChunkSize"
    unfolding chunks_left_def
    using ceil_div_covers [OF internalChunkSize_pos, of "length doc"] by simp
  then show ?thesis
    by (simp add: chunks_of_map concat_chunk_prefix)
qed

lemma concat_take_chunks_of:
  "k \<le> length (chunks_of doc) \<Longrightarrow>
     concat (take k (chunks_of doc)) = take (k * internalChunkSize) doc"
  by (simp add: chunks_of_map take_map concat_chunk_prefix min_def)

lemma chunks_of_Nil: "chunks_of [] = []"
  by (simp add: chunks_of_map chunks_left_done)

lemma chunks_of_eq_Nil: "chunks_of doc = [] \<longleftrightarrow> doc = []"
proof
  assume "chunks_of doc = []"
  then have "concat (chunks_of doc) = []" by simp
  then show "doc = []" by (simp add: concat_chunks_of)
qed (simp add: chunks_of_Nil)

lemma chunk_count_ceiling:
  "int (chunks_left len 0) = \<lceil>real len / real internalChunkSize\<rceil>"
proof -
  let ?c = internalChunkSize
  let ?q = "chunks_left len 0"
  have c: "0 < ?c" by (rule internalChunkSize_pos)
  have up: "len \<le> ?q * ?c"
    unfolding chunks_left_def using ceil_div_covers [OF c, of len] by simp
  have "?q * ?c \<le> len + ?c - 1"
    unfolding chunks_left_def by simp
  with c have low: "?q * ?c < len + ?c" by linarith
  have a: "real len / real ?c \<le> real ?q"
  proof -
    from up have "real len \<le> real ?q * real ?c"
      by (metis of_nat_le_iff of_nat_mult)
    with c show ?thesis by (simp add: pos_divide_le_eq)
  qed
  have b: "real ?q - 1 < real len / real ?c"
  proof -
    from low have "real (?q * ?c) < real (len + ?c)"
      by (simp only: of_nat_less_iff)
    then have "(real ?q - 1) * real ?c < real len"
      by (simp add: algebra_simps)
    with c show ?thesis by (simp add: pos_less_divide_eq)
  qed
  from a b have "\<lceil>real len / real ?c\<rceil> = int ?q"
    by (intro ceiling_unique) simp_all
  then show ?thesis by simp
qed

subsection \<open>Facts about the speech request\<close>

lemma speakChunk_globals [simp]:
  "currentText (speakChunk c cb b s) = currentText s"
  "currentChunks (speakChunk c cb b s) = currentChunks s"
  "currentIndex (speakChunk c cb b s) = currentIndex s"
  "isPlaying (speakChunk c cb b s) = isPlaying s"
  "restartInFlight (speakChunk c cb b s) = restartInFlight s"
  "timers (speakChunk c cb b s) = timers s"
  "engine_paused (speakChunk c cb b s) = engine_paused s"
  "pasteBox_selection (speakChunk c cb b s) = pasteBox_selection s"
  by (simp_all add: speakChunk_def Let_def speechSynthesis_speak_def speechSynthesis_cancel_def
        clear_handlers_def split: option.splits)

lemma speakChunk_request:
  "utterance (speakChunk c cb b s) = Some (length (utterances s))"
  "length (utterances (speakChunk c cb b s)) = Suc (length (utterances s))"
  "n = length (utterances s) \<Longrightarrow>
   utterances (speakChunk c cb (Some base) s) ! n =
     \<lparr>utext = c,
      urate = num_or (rateSlider_value s) 1,
      uvolume = num_or (volumeSlider_value s) 1,
      uvoice = pick_voice (voices s) (voiceSelect_value s),
      ubase = base, uonend = Some cb, uonerror = True\<rparr>"
  "lastBoundaryGlobalStart (speakChunk c cb (Some base) s) = base"
  "engine_queue (speakChunk c cb b s) =
     (case utterance s of None \<Rightarrow> engine_queue s | Some u \<Rightarrow> []) @ [length (utterances s)]"
  by (simp_all add: speakChunk_def Let_def speechSynthesis_speak_def speechSynthesis_cancel_def
        clear_handlers_def nth_append split: option.splits)

lemma speakChunk_settings:
  "n = length (utterances s) \<Longrightarrow>
     urate (utterances (speakChunk c cb b s) ! n) = num_or (rateSlider_value s) 1"
  "n = length (utterances s) \<Longrightarrow>
     uvolume (utterances (speakChunk c cb b s) ! n) = num_or (volumeSlider_value s) 1"
  "n = length (utterances s) \<Longrightarrow>
     uvoice (utterances (speakChunk c cb b s) ! n) = pick_voice (voices s) (voiceSelect_value s)"
  by (simp_all add: speakChunk_def Let_def speechSynthesis_speak_def speechSynthesis_cancel_def
        clear_handlers_def nth_append split: option.splits)

lemma speakChunk_base:
  "n = length (utterances s) \<Longrightarrow>
     ubase (utterances (speakChunk c cb b s) ! n) = lastBoundaryGlobalStart (speakChunk c cb b s)"
  by (simp add: speakChunk_def Let_def speechSynthesis_speak_def speechSynthesis_cancel_def
        clear_handlers_def nth_append split: option.splits)

lemma speakChunk_first:
  "utterance s = None \<Longrightarrow>
     speakChunk c cb (Some b) s =
       s\<lparr>utterance := Some (length (utterances s)),
         lastBoundaryGlobalStart := b,
         utterances := utterances s @
           [\<lparr>utext = c, urate = num_or (rateSlider_value s) 1,
             uvolume = num_or (volumeSlider_value s) 1,
             uvoice = pick_voice (voices s) (voiceSelect_value s),
             ubase = b, uonend = Some cb, uonerror = True\<rparr>],
         engine_queue := engine_queue s @ [length (utterances s)],
         trace := trace s @ [EngineSpeak (length (utterances s))]\<rparr>"
  by (simp add: speakChunk_def Let_def speechSynthesis_speak_def)

lemma speakChunk_no_prior:
  assumes cur: "utterance s = None"
  shows "trace (speakChunk c cb b s) = trace s @ [EngineSpeak (length (utterances s))]"
    and "engine_queue (speakChunk c cb b s) = engine_queue s @ [length (utterances s)]"
  using cur
  by (simp_all add: speakChunk_def Let_def speechSynthesis_speak_def)

lemma speakChunk_replaces:
  assumes cur: "utterance s = Some u"
  shows "trace (speakChunk c cb b s)
           = trace s @ [HandlersCleared u, EngineCancel, EngineSpeak (length (utterances s))]"
    and "engine_queue (speakChunk c cb b s) = [length (utterances s)]"
    and "u < length (utterances s) \<Longrightarrow> uonend (utterances (speakChunk c cb b s) ! u) = None"
    and "u < length (utterances s) \<Longrightarrow> \<not> uonerror (utterances (speakChunk c cb b s) ! u)"
  using cur
  by (simp_all add: speakChunk_def Let_def speechSynthesis_speak_def speechSynthesis_cancel_def
        clear_handlers_def nth_append)

lemma ubase_clear_handlers [simp]:
  "ubase (utterances (clear_handlers u s) ! v) = ubase (utterances s ! v)"
proof (cases "v = u \<and> u < length (utterances s)")
  case True
  then show ?thesis by (simp add: clear_handlers_def)
next
  case False
  then show ?thesis
    by (cases "v = u") (simp_all add: clear_handlers_def not_less list_update_beyond)
qed

lemma clear_handlers_fields [simp]:
  "utterance (clear_handlers u s) = utterance s"
  "lastBoundaryGlobalStart (clear_handlers u s) = lastBoundaryGlobalStart s"
  "engine_queue (clear_handlers u s) = engine_queue s"
  "currentText (clear_handlers u s) = currentText s"
  "currentChunks (clear_handlers u s) = currentChunks s"
  "currentIndex (clear_handlers u s) = currentIndex s"
  "isPlaying (clear_handlers u s) = isPlaying s"
  "timers (clear_handlers u s) = timers s"
  "length (utterances (clear_handlers u s)) = length (utterances s)"
  by (simp_all add: clear_handlers_def)

lemma updatePlayPauseUI_playing: "isPlaying s \<Longrightarrow> updatePlayPauseUI s = s"
  by (simp add: updatePlayPauseUI_def)

lemma playFromCurrentChunk_valid:
  assumes lo: "0 \<le> currentIndex s"
      and hi: "currentIndex s < int (length (currentChunks s))"
  shows "playFromCurrentChunk off s =
           speakChunk
             (drop (nat (max 0 (min off (int (length (currentChunks s ! nat (currentIndex s)))))))
                (currentChunks s ! nat (currentIndex s)))
             (Some AdvanceChunk)
             (Some (currentIndex s * int internalChunkSize
                    + max 0 (min off (int (length (currentChunks s ! nat (currentIndex s)))))))
             (s\<lparr>isPlaying := True, restartInFlight := False\<rparr>)"
proof -
  from hi lo have ne: "currentChunks s \<noteq> []" by auto
  show ?thesis
    using lo hi ne
    by (simp add: playFromCurrentChunk_def Let_def updatePlayPauseUI_playing js_slice_from_drop)
qed

lemma setTextViewer_fields [simp]:
  "currentText (setTextViewer d s) = d"
  "currentChunks (setTextViewer d s) = chunks_of d"
  "currentIndex (setTextViewer d s) = 0"
  "utterances (setTextViewer d s) = utterances s"
  by (simp_all add: setTextViewer_def buildChunks_def)

lemma late_event_ignored:
  assumes u: "u < length (utterances s)"
      and off: "uonend (utterances s ! u) = None" "\<not> uonerror (utterances s ! u)"
      and gone: "u \<notin> set (engine_queue s)"
  shows "step (EngineEnd u) s = s" and "step (EngineError u) s = s"
proof -
  have "filter (\<lambda>x. x \<noteq> u) (engine_queue s) = engine_queue s"
    using gone by (induction "engine_queue s") (auto simp: filter_id_conv)
  then have d: "engine_done u s = s"
    by (simp add: engine_done_def)
  show "step (EngineEnd u) s = s"
    using u off by (simp add: d utterance_onend_def)
  show "step (EngineError u) s = s"
    using u off by (simp add: d utterance_onerror_def)
qed

lemma restart_in_flight_ignored:
  "restartInFlight s \<Longrightarrow> restartWithNewSettingsFromCurrentPosition force s = s"
  by (simp add: restartWithNewSettingsFromCurrentPosition_def)

lemma restart_cancels:
  assumes "\<not> restartInFlight s" "isPlaying s \<or> force" "currentText s \<noteq> []"
  shows "restartInFlight (restartWithNewSettingsFromCurrentPosition force s)"
    and "engine_queue (restartWithNewSettingsFromCurrentPosition force s) = []"
    and "trace (restartWithNewSettingsFromCurrentPosition force s)
           = trace s @ (case utterance s of None \<Rightarrow> [] | Some u \<Rightarrow> [HandlersCleared u])
               @ [EngineCancel]"
    and "length (timers (restartWithNewSettingsFromCurrentPosition force s))
           = Suc (length (timers s))"
  using assms
  by (auto simp: restartWithNewSettingsFromCurrentPosition_def Let_def speechSynthesis_cancel_def
        clear_handlers_def split: option.splits)

subsection \<open>A jump inside the document\<close>

lemma jumpToCharIndex_inside:
  fixes s :: "'c reader" and pos :: int
  assumes sync: "currentChunks s = chunks_of (currentText s)"
      and lo: "0 \<le> pos"
      and hi: "pos < int (length (currentText s))"
  defines "chunkIndex \<equiv> pos div int internalChunkSize"
  defines "inChunkOffset \<equiv> pos - chunkIndex * int internalChunkSize"
  shows "jumpToCharIndex pos s
           = playFromCurrentChunk inChunkOffset (s\<lparr>currentIndex := chunkIndex\<rparr>)"
    and "jumpToCharIndex pos s
           = speakChunk (drop (nat inChunkOffset) (currentChunks s ! nat chunkIndex))
               (Some AdvanceChunk) (Some pos)
               (s\<lparr>currentIndex := chunkIndex, isPlaying := True, restartInFlight := False\<rparr>)"
    and "chunkIndex * int internalChunkSize + inChunkOffset = pos"
proof -
  let ?c = internalChunkSize
  let ?len = "length (currentText s)"
  define p where "p = nat pos"
  define k where "k = p div ?c"
  have c: "0 < ?c" by (rule internalChunkSize_pos)
  have pos: "pos = int p" using lo by (simp add: p_def)
  have p: "p < ?len" using hi lo by (simp add: p_def)
  have ci: "chunkIndex = int k"
    by (simp add: chunkIndex_def k_def pos zdiv_int)
  have io: "inChunkOffset = int (p mod ?c)"
    unfolding inChunkOffset_def ci pos k_def
    by (simp add: of_nat_mod minus_div_mult_eq_mod [symmetric] of_nat_div)
  have ne: "currentText s \<noteq> []" using p by auto
  have k: "k < length (chunks_of (currentText s))"
    unfolding k_def length_chunks_of using p by (rule chunk_index_of_offset)
  then have chunk: "currentChunks s ! k = take ?c (drop (k * ?c) (currentText s))"
    by (simp add: sync nth_chunks_of)
  have kc: "k * ?c + p mod ?c = p"
    by (simp add: k_def)
  have room: "p mod ?c \<le> length (currentChunks s ! k)"
  proof -
    have "p mod ?c < ?c" using c by simp
    moreover have "p mod ?c < ?len - k * ?c" using kc p by linarith
    ultimately show ?thesis by (simp add: chunk)
  qed
  have jump: "jumpToCharIndex pos s
                = playFromCurrentChunk inChunkOffset (s\<lparr>currentIndex := chunkIndex\<rparr>)"
  proof -
    have "max 0 (min (int ?len - 1) pos) = pos" using lo hi by simp
    moreover have "max 0 inChunkOffset = inChunkOffset" by (simp add: io)
    ultimately show ?thesis
      using ne by (simp add: jumpToCharIndex_def Let_def inChunkOffset_def chunkIndex_def)
  qed
  let ?t = "s\<lparr>currentIndex := chunkIndex\<rparr>"
  have tlo: "0 \<le> currentIndex ?t" by (simp add: ci)
  have thi: "currentIndex ?t < int (length (currentChunks ?t))"
    using k by (simp add: ci sync)
  have clamp: "max 0 (min inChunkOffset (int (length (currentChunks ?t ! nat (currentIndex ?t)))))
                 = inChunkOffset"
    using room by (simp add: io ci)
  have play: "playFromCurrentChunk inChunkOffset ?t =
                speakChunk (drop (nat inChunkOffset) (currentChunks s ! nat chunkIndex))
                  (Some AdvanceChunk)
                  (Some (chunkIndex * int ?c + inChunkOffset))
                  (?t\<lparr>isPlaying := True, restartInFlight := False\<rparr>)"
    unfolding playFromCurrentChunk_valid [OF tlo thi] clamp by simp
  have total: "chunkIndex * int ?c + inChunkOffset = pos"
    by (simp add: inChunkOffset_def)
  show "jumpToCharIndex pos s
          = playFromCurrentChunk inChunkOffset (s\<lparr>currentIndex := chunkIndex\<rparr>)"
    by (rule jump)
  show "jumpToCharIndex pos s
          = speakChunk (drop (nat inChunkOffset) (currentChunks s ! nat chunkIndex))
              (Some AdvanceChunk) (Some pos)
              (s\<lparr>currentIndex := chunkIndex, isPlaying := True, restartInFlight := False\<rparr>)"
    by (simp only: jump play total)
  show "chunkIndex * int internalChunkSize + inChunkOffset = pos"
    by (rule total)
qed

subsection \<open>Invariants of the page\<close>

lemma cursor_at_base_speakChunk: "cursor_at_base (speakChunk c cb b s)"
  by (simp add: cursor_at_base_def speakChunk_request(1) speakChunk_base)

lemma cursor_at_base_playFromCurrentChunk:
  "cursor_at_base s \<Longrightarrow> cursor_at_base (playFromCurrentChunk off s)"
  by (simp add: playFromCurrentChunk_def Let_def cursor_at_base_speakChunk)
     (simp add: cursor_at_base_def buildChunks_def)

lemma cursor_at_base_restart:
  "cursor_at_base s \<Longrightarrow> cursor_at_base (restartWithNewSettingsFromCurrentPosition force s)"
  by (auto simp: restartWithNewSettingsFromCurrentPosition_def Let_def cursor_at_base_def
        speechSynthesis_cancel_def split: option.splits)

lemma cursor_at_base_advance:
  "cursor_at_base s \<Longrightarrow> cursor_at_base (advance_chunk s)"
  by (auto simp: advance_chunk_def Let_def cursor_at_base_def updatePlayPauseUI_def
        split: option.splits)

lemma cursor_at_base_step:
  "\<not> is_boundary ev \<Longrightarrow> cursor_at_base s \<Longrightarrow> cursor_at_base (step ev s)"
proof (cases ev)
  case (DblClick idx)
  assume "cursor_at_base s"
  then have "cursor_at_base (s\<lparr>currentIndex := k\<rparr>)" for k
    by (simp add: cursor_at_base_def)
  with DblClick \<open>cursor_at_base s\<close> show ?thesis
    by (simp add: jumpToCharIndex_def Let_def cursor_at_base_playFromCurrentChunk)
next
  case ClickPlayPause
  assume c: "cursor_at_base s"
  then have "cursor_at_base (playFromCurrentChunk 0 s)"
    by (rule cursor_at_base_playFromCurrentChunk)
  with ClickPlayPause c show ?thesis
    by (auto simp: playPauseBtn_click_def cursor_at_base_def updatePlayPauseUI_def Let_def
          speechSynthesis_resume_def speechSynthesis_pause_def split: option.splits)
next
  case (TimerFire k)
  assume c: "cursor_at_base s"
  then have "cursor_at_base (s\<lparr>timers := ts\<rparr>)" for ts
    by (simp add: cursor_at_base_def)
  with TimerFire c show ?thesis
    by (simp add: fire_timer_def cursor_at_base_playFromCurrentChunk split: timer.splits)
next
  case (VoiceChange v)
  assume c: "cursor_at_base s"
  then have "cursor_at_base (s\<lparr>voiceSelect_value := v\<rparr>)"
    by (simp add: cursor_at_base_def)
  with VoiceChange show ?thesis
    by (simp add: voiceSelect_change_def cursor_at_base_restart)
next
  case (RateChange v)
  assume c: "cursor_at_base s"
  then have "cursor_at_base (s\<lparr>rateSlider_value := v\<rparr>)"
    by (simp add: cursor_at_base_def)
  with RateChange show ?thesis
    by (simp add: rateSlider_change_def cursor_at_base_restart)
next
  case (VolumeChange v)
  assume c: "cursor_at_base s"
  then have "cursor_at_base (s\<lparr>volumeSlider_value := v\<rparr>)"
    by (simp add: cursor_at_base_def)
  with VolumeChange show ?thesis
    by (simp add: volumeSlider_change_def cursor_at_base_restart)
next
  case (EngineEnd u)
  assume c: "cursor_at_base s"
  then have "cursor_at_base (engine_done u s)"
    by (simp add: cursor_at_base_def engine_done_def)
  then have "cursor_at_base (utterance_onend u (engine_done u s))"
    by (simp add: utterance_onend_def run_callback_def cursor_at_base_advance
          split: option.splits callback.splits)
  with EngineEnd c show ?thesis by simp
next
  case (EngineError u)
  assume c: "cursor_at_base s"
  with EngineError show ?thesis
    by (simp add: cursor_at_base_def utterance_onerror_def engine_done_def)
next
  case (EngineBoundary u e)
  assume "\<not> is_boundary ev"
  with EngineBoundary show ?thesis by simp
qed (simp_all add: cursor_at_base_def setTextViewer_def renderPDFToViewer_def
       pasteBox_input_def buildChunks_def stopBtn_click_def populateVoiceList_def
       updatePlayPauseUI_def speechSynthesis_cancel_def Let_def)

lemma cursor_at_base_run:
  "\<forall>ev \<in> set es. \<not> is_boundary ev \<Longrightarrow> cursor_at_base s \<Longrightarrow> cursor_at_base (run es s)"
  by (induction es arbitrary: s) (simp_all add: cursor_at_base_step)

lemma one_request_speakChunk: "one_request s \<Longrightarrow> one_request (speakChunk c cb b s)"
  by (auto simp: one_request_def speakChunk_request split: option.splits)

lemma one_request_playFromCurrentChunk:
  "one_request s \<Longrightarrow> one_request (playFromCurrentChunk off s)"
proof -
  assume o: "one_request s"
  have frame: "one_request (t\<lparr>isPlaying := p, restartInFlight := r\<rparr>)"
    if "one_request t" for t :: "'c reader" and p r
    using that by (simp add: one_request_def)
  have pre: "one_request (if currentIndex (if currentChunks s = [] then buildChunks s else s) < 0
                  then (if currentChunks s = [] then buildChunks s else s)\<lparr>currentIndex := 0\<rparr>
                  else (if currentChunks s = [] then buildChunks s else s))"
    using o by (simp add: one_request_def buildChunks_def)
  show ?thesis
    unfolding playFromCurrentChunk_def Let_def
    using pre
    by (auto simp: updatePlayPauseUI_playing intro!: one_request_speakChunk frame)
       (simp_all add: one_request_def)
qed

lemma one_request_restart:
  "one_request s \<Longrightarrow> one_request (restartWithNewSettingsFromCurrentPosition force s)"
  by (auto simp: restartWithNewSettingsFromCurrentPosition_def Let_def one_request_def
        speechSynthesis_cancel_def split: option.splits)

lemma one_request_advance: "one_request s \<Longrightarrow> one_request (advance_chunk s)"
  by (auto simp: advance_chunk_def Let_def one_request_def updatePlayPauseUI_def)

lemma one_request_engine_done: "one_request s \<Longrightarrow> one_request (engine_done u s)"
  by (auto simp: one_request_def engine_done_def)

lemma one_request_step: "one_request s \<Longrightarrow> one_request (step ev s)"
proof (cases ev)
  case (DblClick idx)
  assume "one_request s"
  then have "one_request (s\<lparr>currentIndex := k\<rparr>)" for k
    by (simp add: one_request_def)
  with DblClick \<open>one_request s\<close> show ?thesis
    by (simp add: jumpToCharIndex_def Let_def one_request_playFromCurrentChunk)
next
  case ClickPlayPause
  assume c: "one_request s"
  then have "one_request (playFromCurrentChunk 0 s)"
    by (rule one_request_playFromCurrentChunk)
  with ClickPlayPause c show ?thesis
    by (auto simp: playPauseBtn_click_def one_request_def updatePlayPauseUI_def Let_def
          speechSynthesis_resume_def speechSynthesis_pause_def)
next
  case (TimerFire k)
  assume c: "one_request s"
  then have "one_request (s\<lparr>timers := ts\<rparr>)" for ts
    by (simp add: one_request_def)
  with TimerFire c show ?thesis
    by (simp add: fire_timer_def one_request_playFromCurrentChunk split: timer.splits)
next
  case (VoiceChange v)
  assume c: "one_request s"
  then have "one_request (s\<lparr>voiceSelect_value := v\<rparr>)"
    by (simp add: one_request_def)
  with VoiceChange show ?thesis
    by (simp add: voiceSelect_change_def one_request_restart)
next
  case (RateChange v)
  assume c: "one_request s"
  then have "one_request (s\<lparr>rateSlider_value := v\<rparr>)"
    by (simp add: one_request_def)
  with RateChange show ?thesis
    by (simp add: rateSlider_change_def one_request_restart)
next
  case (VolumeChange v)
  assume c: "one_request s"
  then have "one_request (s\<lparr>volumeSlider_value := v\<rparr>)"
    by (simp add: one_request_def)
  with VolumeChange show ?thesis
    by (simp add: volumeSlider_change_def one_request_restart)
next
  case (EngineEnd u)
  assume c: "one_request s"
  then have "one_request (engine_done u s)"
    by (rule one_request_engine_done)
  then have "one_request (utterance_onend u (engine_done u s))"
    by (simp add: utterance_onend_def run_callback_def one_request_advance
          split: option.splits callback.splits)
  with EngineEnd c show ?thesis by simp
next
  case (EngineError u)
  assume c: "one_request s"
  then have "one_request (engine_done u s)"
    by (rule one_request_engine_done)
  then have "one_request (utterance_onerror u (engine_done u s))"
    by (simp add: utterance_onerror_def one_request_def)
  with EngineError c show ?thesis by simp
next
  case (EngineBoundary u e)
  assume c: "one_request s"
  with EngineBoundary show ?thesis
    by (simp add: utterance_onboundary_def one_request_def Let_def split: option.splits)
qed (simp_all add: one_request_def setTextViewer_def renderPDFToViewer_def
       pasteBox_input_def buildChunks_def stopBtn_click_def populateVoiceList_def
       updatePlayPauseUI_def speechSynthesis_cancel_def Let_def)

lemma one_request_run: "one_request s \<Longrightarrow> one_request (run es s)"
  by (induction es arbitrary: s) (simp_all add: one_request_step)

lemma one_request_initial: "one_request initial"
  by (simp add: one_request_def initial_def)

lemma chunks_synced_playFromCurrentChunk:
  "chunks_synced s \<Longrightarrow> chunks_synced (playFromCurrentChunk off s)"
  by (simp add: playFromCurrentChunk_def Let_def chunks_synced_def buildChunks_def
        updatePlayPauseUI_playing)

lemma chunks_synced_restart:
  "chunks_synced s \<Longrightarrow> chunks_synced (restartWithNewSettingsFromCurrentPosition force s)"
  by (auto simp: restartWithNewSettingsFromCurrentPosition_def Let_def chunks_synced_def
        speechSynthesis_cancel_def split: option.splits)

lemma chunks_synced_step: "chunks_synced s \<Longrightarrow> chunks_synced (step ev s)"
proof (cases ev)
  case (DblClick idx)
  assume "chunks_synced s"
  then have "chunks_synced (s\<lparr>currentIndex := k\<rparr>)" for k
    by (simp add: chunks_synced_def)
  with DblClick \<open>chunks_synced s\<close> show ?thesis
    by (simp add: jumpToCharIndex_def Let_def chunks_synced_playFromCurrentChunk)
next
  case ClickPlayPause
  assume c: "chunks_synced s"
  then have "chunks_synced (playFromCurrentChunk 0 s)"
    by (rule chunks_synced_playFromCurrentChunk)
  with ClickPlayPause c show ?thesis
    by (auto simp: playPauseBtn_click_def chunks_synced_def updatePlayPauseUI_def Let_def
          speechSynthesis_resume_def speechSynthesis_pause_def)
next
  case (TimerFire k)
  assume c: "chunks_synced s"
  then have "chunks_synced (s\<lparr>timers := ts\<rparr>)" for ts
    by (simp add: chunks_synced_def)
  with TimerFire c show ?thesis
    by (simp add: fire_timer_def chunks_synced_playFromCurrentChunk split: timer.splits)
next
  case (VoiceChange v)
  assume c: "chunks_synced s"
  then have "chunks_synced (s\<lparr>voiceSelect_value := v\<rparr>)"
    by (simp add: chunks_synced_def)
  with VoiceChange show ?thesis
    by (simp add: voiceSelect_change_def chunks_synced_restart)
next
  case (RateChange v)
  assume c: "chunks_synced s"
  then have "chunks_synced (s\<lparr>rateSlider_value := v\<rparr>)"
    by (simp add: chunks_synced_def)
  with RateChange show ?thesis
    by (simp add: rateSlider_change_def chunks_synced_restart)
next
  case (VolumeChange v)
  assume c: "chunks_synced s"
  then have "chunks_synced (s\<lparr>volumeSlider_value := v\<rparr>)"
    by (simp add: chunks_synced_def)
  with VolumeChange show ?thesis
    by (simp add: volumeSlider_change_def chunks_synced_restart)
next
  case (EngineEnd u)
  assume c: "chunks_synced s"
  with EngineEnd show ?thesis
    by (auto simp: utterance_onend_def run_callback_def advance_chunk_def Let_def
          updatePlayPauseUI_def chunks_synced_def engine_done_def
          split: option.splits callback.splits)
next
  case (EngineError u)
  assume c: "chunks_synced s"
  with EngineError show ?thesis
    by (simp add: utterance_onerror_def chunks_synced_def engine_done_def)
next
  case (EngineBoundary u e)
  assume c: "chunks_synced s"
  with EngineBoundary show ?thesis
    by (simp add: utterance_onboundary_def chunks_synced_def Let_def split: option.splits)
qed (simp_all add: chunks_synced_def setTextViewer_def renderPDFToViewer_def
       pasteBox_input_def buildChunks_def stopBtn_click_def populateVoiceList_def
       updatePlayPauseUI_def speechSynthesis_cancel_def Let_def)

lemma chunks_synced_run: "chunks_synced s \<Longrightarrow> chunks_synced (run es s)"
  by (induction es arbitrary: s) (simp_all add: chunks_synced_step)

lemma chunks_synced_reachable:
  fixes es :: "'c event list"
  shows "currentChunks (run es initial) = chunks_of (currentText (run es initial))"
proof -
  have "chunks_synced (initial :: 'c reader)"
    by (simp add: chunks_synced_def initial_def chunks_of_Nil)
  then have "chunks_synced (run es (initial :: 'c reader))"
    by (rule chunks_synced_run)
  then show ?thesis by (simp add: chunks_synced_def)
qed

subsection \<open>Slider changes while not playing\<close>

lemma slider_change_paused:
  "\<not> isPlaying s \<Longrightarrow> is_slider_change ev \<Longrightarrow>
     \<not> isPlaying (step ev s) \<and> trace (step ev s) = trace s \<and> timers (step ev s) = timers s
     \<and> engine_queue (step ev s) = engine_queue s \<and> utterances (step ev s) = utterances s
     \<and> currentIndex (step ev s) = currentIndex s"
  by (cases ev)
     (simp_all add: rateSlider_change_def volumeSlider_change_def
        restartWithNewSettingsFromCurrentPosition_def)

lemma slider_changes_paused:
  "\<not> isPlaying s \<Longrightarrow> \<forall>ev \<in> set es. is_slider_change ev \<Longrightarrow>
     \<not> isPlaying (run es s) \<and> trace (run es s) = trace s \<and> timers (run es s) = timers s
     \<and> engine_queue (run es s) = engine_queue s \<and> utterances (run es s) = utterances s
     \<and> currentIndex (run es s) = currentIndex s"
proof (induction es arbitrary: s)
  case Nil
  then show ?case by simp
next
  case (Cons ev es)
  from Cons.prems have one: "\<not> isPlaying (step ev s) \<and> trace (step ev s) = trace s
     \<and> timers (step ev s) = timers s
     \<and> engine_queue (step ev s) = engine_queue s \<and> utterances (step ev s) = utterances s
     \<and> currentIndex (step ev s) = currentIndex s"
    by (intro slider_change_paused) simp_all
  with Cons.prems Cons.IH [of "step ev s"] show ?case by simp
qed

subsection \<open>Facts about the example states\<close>

lemmas page_defs =
  playPauseBtn_click_def stopBtn_click_def updatePlayPauseUI_def
  speechSynthesis_pause_def speechSynthesis_resume_def speechSynthesis_cancel_def
  speechSynthesis_speak_def speechSynthesis_speaking_def clear_handlers_def
  restartWithNewSettingsFromCurrentPosition_def voiceSelect_change_def
  rateSlider_change_def volumeSlider_change_def fire_timer_def engine_done_def
  utterance_onend_def utterance_onerror_def utterance_onboundary_def run_callback_def
  advance_chunk_def setTextViewer_def renderPDFToViewer_def pasteBox_input_def
  buildChunks_def populateVoiceList_def int_or_def num_or_def pick_voice_def

lemma doc7000_not_Nil: "doc7000 \<noteq> []"
  by (simp add: doc7000_def)

lemma chunks_of_doc7000:
  "length (chunks_of doc7000) = 3"
  "chunks_of doc7000 ! Suc 0 = replicate 3000 CHR ''a''"
  "chunks_of doc7000 ! 2 = replicate 1000 CHR ''a''"
proof -
  show len: "length (chunks_of doc7000) = 3"
    by (simp add: length_chunks_of chunks_left_def internalChunkSize_def doc7000_def)
  have "chunks_of doc7000 ! 1 = take internalChunkSize (drop (1 * internalChunkSize) doc7000)"
    by (rule nth_chunks_of) (simp add: len)
  then show "chunks_of doc7000 ! Suc 0 = replicate 3000 CHR ''a''"
    by (simp add: internalChunkSize_def doc7000_def)
  have "chunks_of doc7000 ! 2 = take internalChunkSize (drop (2 * internalChunkSize) doc7000)"
    by (rule nth_chunks_of) (simp add: len)
  then show "chunks_of doc7000 ! 2 = replicate 1000 CHR ''a''"
    by (simp add: internalChunkSize_def doc7000_def)
qed

lemma chunks_of_doc7000_first: "chunks_of doc7000 ! 0 = replicate 3000 CHR ''a''"
proof -
  have "chunks_of doc7000 ! 0 = take internalChunkSize (drop (0 * internalChunkSize) doc7000)"
    by (rule nth_chunks_of) (simp add: chunks_of_doc7000)
  then show ?thesis
    by (simp add: internalChunkSize_def doc7000_def)
qed

lemma playing7000_eq:
  "playing7000 =
     \<lparr>currentText = doc7000, currentChunks = chunks_of doc7000, currentIndex = 0,
      isPlaying = True, utterance = Some 0, voices = [], lastBoundaryGlobalStart = 0,
      restartInFlight = False, pasteBox_value = doc7000, pasteBox_selection = (0, 0),
      rateSlider_value = Some 1, volumeSlider_value = Some 1, voiceSelect_value = [],
      utterances = [\<lparr>utext = replicate 3000 CHR ''a'', urate = 1, uvolume = 1,
                     uvoice = None, ubase = 0, uonend = Some (Some AdvanceChunk),
                     uonerror = True\<rparr>],
      engine_queue = [0], engine_paused = False, timers = [],
      trace = [EngineSpeak 0]\<rparr>"
proof -
  have ne: "doc7000 \<noteq> []" by (simp add: doc7000_def)
  have l: "playing7000 = playFromCurrentChunk 0 loaded7000"
    using ne by (simp add: playing7000_def loaded7000_def playPauseBtn_click_def initial_def
                   setTextViewer_def buildChunks_def)
  have lo: "0 \<le> currentIndex loaded7000" by (simp add: loaded7000_def)
  have hi: "currentIndex loaded7000 < int (length (currentChunks loaded7000))"
    by (simp add: loaded7000_def chunks_of_doc7000)
  have none: "utterance (loaded7000\<lparr>isPlaying := True, restartInFlight := False\<rparr>) = None"
    by (simp add: loaded7000_def setTextViewer_def buildChunks_def initial_def)
  show ?thesis
    unfolding l playFromCurrentChunk_valid [OF lo hi] speakChunk_first [OF none]
    by (simp add: loaded7000_def setTextViewer_def buildChunks_def initial_def
          chunks_of_doc7000_first num_or_def pick_voice_def)
qed

lemma paused7000_eq:
  "paused7000 =
     \<lparr>currentText = doc7000, currentChunks = chunks_of doc7000, currentIndex = 0,
      isPlaying = False, utterance = Some 0, voices = [], lastBoundaryGlobalStart = 0,
      restartInFlight = False, pasteBox_value = doc7000, pasteBox_selection = (0, 0),
      rateSlider_value = Some 1, volumeSlider_value = Some 1, voiceSelect_value = [],
      utterances = [\<lparr>utext = replicate 3000 CHR ''a'', urate = 1, uvolume = 1,
                     uvoice = None, ubase = 0, uonend = Some (Some AdvanceChunk),
                     uonerror = True\<rparr>],
      engine_queue = [0], engine_paused = True, timers = [],
      trace = [EngineSpeak 0, EnginePause]\<rparr>"
  by (simp add: paused7000_def playing7000_eq page_defs doc7000_not_Nil Let_def)

lemma voice_after_pause:
  "voiceSelect_change ''Anna'' paused7000 =
     paused7000\<lparr>voiceSelect_value := ''Anna'', restartInFlight := True,
       utterances := [\<lparr>utext = replicate 3000 CHR ''a'', urate = 1, uvolume = 1,
                      uvoice = None, ubase = 0, uonend = None, uonerror = False\<rparr>],
       engine_queue := [], timers := [PlayAfter 60 0],
       trace := [EngineSpeak 0, EnginePause, HandlersCleared 0, EngineCancel]\<rparr>"
  by (simp add: paused7000_eq page_defs doc7000_not_Nil Let_def internalChunkSize_def)

subsection \<open>Chunk coverage\<close>

text \<open>
  Claim C1. For every document text, with the fixed chunk size of 3000, rebuilding the
  chunks gives a list whose concatenation is the text, whose length is the text length
  divided by the chunk size and rounded up (no chunk for the empty text), and whose
  chunk \<open>i\<close> is the slice that starts at offset \<open>i * chunkSize\<close>: the chunks before it
  have \<open>i * chunkSize\<close> characters together.
\<close>

theorem buildChunks_covers_text:
  fixes s :: "'c reader"
  defines "chunks \<equiv> currentChunks (buildChunks s)"
  shows "concat chunks = currentText s
       \<and> length chunks = (length (currentText s) + internalChunkSize - 1) div internalChunkSize
       \<and> int (length chunks) = \<lceil>real (length (currentText s)) / real internalChunkSize\<rceil>
       \<and> (currentText s = [] \<longrightarrow> length chunks = 0)
       \<and> (\<forall>i < length chunks.
             chunks ! i = js_slice (currentText s) (int (i * internalChunkSize))
                            (int (i * internalChunkSize + internalChunkSize))
           \<and> chunks ! i = take internalChunkSize (drop (i * internalChunkSize) (currentText s))
           \<and> length (concat (take i chunks)) = i * internalChunkSize)"
proof -
  have chunks: "chunks = chunks_of (currentText s)"
    by (simp add: chunks_def buildChunks_def)
  have p1: "concat chunks = currentText s"
    by (simp add: chunks concat_chunks_of)
  have p2: "length chunks = (length (currentText s) + internalChunkSize - 1) div internalChunkSize"
    by (simp add: chunks length_chunks_of chunks_left_def)
  have p3: "int (length chunks) = \<lceil>real (length (currentText s)) / real internalChunkSize\<rceil>"
    by (simp only: chunks length_chunks_of chunk_count_ceiling)
  have p4: "currentText s = [] \<longrightarrow> length chunks = 0"
    by (simp add: chunks chunks_of_Nil)
  have p5: "chunks ! i = js_slice (currentText s) (int (i * internalChunkSize))
                            (int (i * internalChunkSize + internalChunkSize))
           \<and> chunks ! i = take internalChunkSize (drop (i * internalChunkSize) (currentText s))
           \<and> length (concat (take i chunks)) = i * internalChunkSize"
    if i: "i < length chunks" for i
  proof -
    from i have inside: "i * internalChunkSize < length (currentText s)"
      by (simp add: chunks length_chunks_of chunk_index_in_doc)
    have nth: "chunks ! i = take internalChunkSize (drop (i * internalChunkSize) (currentText s))"
      using i by (simp add: chunks nth_chunks_of)
    have "js_slice (currentText s) (int (i * internalChunkSize))
            (int (i * internalChunkSize) + int internalChunkSize)
          = take internalChunkSize (drop (i * internalChunkSize) (currentText s))"
      using inside by (intro js_slice_window) simp
    moreover have "length (concat (take i chunks)) = i * internalChunkSize"
      using i inside by (simp add: chunks concat_take_chunks_of)
    ultimately show ?thesis using nth by simp
  qed
  from p1 p2 p3 p4 p5 show ?thesis by blast
qed

text \<open>
  The theorem at a text of 7000 characters: three chunks, the last one of 1000
  characters and starting at offset 6000; and at the empty text.
\<close>

theorem buildChunks_covers_text_witness:
  "length (currentChunks (buildChunks (initial\<lparr>currentText := replicate 7000 CHR ''a''\<rparr>))) = 3
   \<and> currentChunks (buildChunks (initial\<lparr>currentText := replicate 7000 CHR ''a''\<rparr>)) ! 2
       = replicate 1000 CHR ''a''
   \<and> length (concat (take 2 (currentChunks
        (buildChunks (initial\<lparr>currentText := replicate 7000 CHR ''a''\<rparr>))))) = 6000
   \<and> concat (currentChunks (buildChunks (initial\<lparr>currentText := replicate 7000 CHR ''a''\<rparr>)))
       = replicate 7000 CHR ''a''
   \<and> currentChunks (buildChunks (initial\<lparr>currentText := ([] :: char list)\<rparr>)) = []"
proof -
  let ?s = "initial\<lparr>currentText := replicate 7000 CHR ''a''\<rparr>"
  let ?e = "initial\<lparr>currentText := ([] :: char list)\<rparr>"
  note t = buildChunks_covers_text [of ?s]
  have len: "length (currentChunks (buildChunks ?s)) = 3"
    using t by (simp add: internalChunkSize_def)
  have "(2::nat) < length (currentChunks (buildChunks ?s))"
    by (simp add: len)
  with t have "currentChunks (buildChunks ?s) ! 2
                 = take internalChunkSize (drop (2 * internalChunkSize) (currentText ?s))
             \<and> length (concat (take 2 (currentChunks (buildChunks ?s)))) = 2 * internalChunkSize"
    by blast
  then have two: "currentChunks (buildChunks ?s) ! 2 = replicate 1000 CHR ''a''
      \<and> length (concat (take 2 (currentChunks (buildChunks ?s)))) = 6000"
    by (simp add: internalChunkSize_def)
  have all: "concat (currentChunks (buildChunks ?s)) = replicate 7000 CHR ''a''"
    using t by simp
  have "currentChunks (buildChunks ?e) = []"
    using buildChunks_covers_text [of ?e] by simp
  with len two all show ?thesis by simp
qed

subsection \<open>Offset round trip\<close>

text \<open>
  Claim C2. For every global offset \<open>pos\<close> inside the document, a jump to \<open>pos\<close>
  resolves to the chunk index \<open>pos div chunkSize\<close> and the in-chunk offset
  \<open>pos - (pos div chunkSize) * chunkSize\<close>; the address rebuilt from the two, which is the
  base offset of the request and the tracked cursor right after the jump, is \<open>pos\<close>.
  The chunks are those of the current text, as they are in every state the page reaches.
\<close>

theorem jumpToCharIndex_round_trip:
  fixes s :: "'c reader" and pos :: int
  assumes sync: "currentChunks s = chunks_of (currentText s)"
      and lo: "0 \<le> pos"
      and hi: "pos < int (length (currentText s))"
  defines "chunkIndex \<equiv> pos div int internalChunkSize"
  defines "inChunkOffset \<equiv> pos - chunkIndex * int internalChunkSize"
  defines "s' \<equiv> jumpToCharIndex pos s"
  defines "new \<equiv> length (utterances s)"
  shows "jumpToCharIndex pos s
           = playFromCurrentChunk inChunkOffset (s\<lparr>currentIndex := chunkIndex\<rparr>)
       \<and> currentIndex s' = chunkIndex
       \<and> isPlaying s'
       \<and> utterance s' = Some new
       \<and> utext (utterances s' ! new)
           = drop (nat inChunkOffset) (currentChunks s ! nat chunkIndex)
       \<and> ubase (utterances s' ! new) = chunkIndex * int internalChunkSize + inChunkOffset
       \<and> lastBoundaryGlobalStart s' = chunkIndex * int internalChunkSize + inChunkOffset
       \<and> chunkIndex * int internalChunkSize + inChunkOffset = pos"
proof -
  note j = jumpToCharIndex_inside [OF sync lo hi]
  have resolved: "jumpToCharIndex pos s
           = playFromCurrentChunk inChunkOffset (s\<lparr>currentIndex := chunkIndex\<rparr>)"
    unfolding chunkIndex_def inChunkOffset_def by (rule j(1))
  have total: "chunkIndex * int internalChunkSize + inChunkOffset = pos"
    unfolding chunkIndex_def inChunkOffset_def by (rule j(3))
  have request: "s' = speakChunk (drop (nat inChunkOffset) (currentChunks s ! nat chunkIndex))
               (Some AdvanceChunk) (Some pos)
               (s\<lparr>currentIndex := chunkIndex, isPlaying := True, restartInFlight := False\<rparr>)"
    unfolding s'_def chunkIndex_def inChunkOffset_def by (rule j(2))
  have cursor: "currentIndex s' = chunkIndex \<and> isPlaying s' \<and> utterance s' = Some new
       \<and> utext (utterances s' ! new)
           = drop (nat inChunkOffset) (currentChunks s ! nat chunkIndex)
       \<and> ubase (utterances s' ! new) = pos
       \<and> lastBoundaryGlobalStart s' = pos"
    unfolding request by (simp add: speakChunk_request new_def)
  from resolved cursor total show ?thesis by simp
qed

text \<open>
  The document of 7000 characters: a jump to 3500 resolves to chunk 1, offset 500.
\<close>

theorem jumpToCharIndex_round_trip_witness:
  "jumpToCharIndex 3500 loaded7000 = playFromCurrentChunk 500 (loaded7000\<lparr>currentIndex := 1\<rparr>)
   \<and> currentIndex (jumpToCharIndex 3500 loaded7000) = 1
   \<and> lastBoundaryGlobalStart (jumpToCharIndex 3500 loaded7000) = 3500
   \<and> utterance (jumpToCharIndex 3500 loaded7000) = Some 0
   \<and> ubase (utterances (jumpToCharIndex 3500 loaded7000) ! 0) = 3500
   \<and> utext (utterances (jumpToCharIndex 3500 loaded7000) ! 0) = replicate 2500 CHR ''a''"
proof -
  have sync: "currentChunks loaded7000 = chunks_of (currentText loaded7000)"
    by (simp add: loaded7000_def)
  have lo: "(0::int) \<le> 3500" by simp
  have hi: "3500 < int (length (currentText loaded7000))"
    by (simp add: loaded7000_def doc7000_def)
  have u: "length (utterances loaded7000) = 0"
    by (simp add: loaded7000_def initial_def)
  have d: "(3500::int) div int internalChunkSize = 1"
    by (simp add: internalChunkSize_def)
  have c: "currentChunks loaded7000 ! nat 1 = replicate 3000 CHR ''a''"
    by (simp add: loaded7000_def chunks_of_doc7000)
  note t = jumpToCharIndex_round_trip [OF sync lo hi, unfolded u d c]
  have resolved: "jumpToCharIndex 3500 loaded7000
                    = playFromCurrentChunk 500 (loaded7000\<lparr>currentIndex := 1\<rparr>)"
    using conjunct1 [OF t] by (simp add: internalChunkSize_def)
  have cursor: "currentIndex (jumpToCharIndex 3500 loaded7000) = 1
      \<and> lastBoundaryGlobalStart (jumpToCharIndex 3500 loaded7000) = 3500
      \<and> utterance (jumpToCharIndex 3500 loaded7000) = Some 0
      \<and> ubase (utterances (jumpToCharIndex 3500 loaded7000) ! 0) = 3500
      \<and> utext (utterances (jumpToCharIndex 3500 loaded7000) ! 0) = replicate 2500 CHR ''a''"
    using conjunct2 [OF t] by (simp add: internalChunkSize_def)
  from resolved cursor show ?thesis by (rule conjI)
qed

subsection \<open>At most one speech request\<close>

text \<open>
  Claim C3. After every sequence of events the engine's queue holds at most one request,
  and it is the current utterance. A speech request is only issued by \<^verbatim>\<open>speakChunk\<close>:
  when there is a prior utterance it first detaches that utterance's end and error
  handlers, then cancels, then speaks, so the queue holds the new request alone and a
  late end or error event of the old utterance changes nothing. A restart after a
  settings change detaches the handlers before it cancels and sets the in-flight flag,
  and any further settings change is ignored until the restart has played.
\<close>

theorem at_most_one_speech_request:
  fixes es :: "'c event list" and s :: "'c reader" and c :: "'c list"
    and cb :: "callback option" and b :: "int option" and u :: nat and force again :: bool
  defines "r \<equiv> run es initial"
  defines "s' \<equiv> speakChunk c cb b s"
  defines "new \<equiv> length (utterances s)"
  defines "t \<equiv> restartWithNewSettingsFromCurrentPosition force s"
  shows "length (engine_queue r) \<le> 1
       \<and> (\<forall>q \<in> set (engine_queue r). utterance r = Some q)
       \<and> (utterance s = None \<longrightarrow>
            trace s' = trace s @ [EngineSpeak new]
          \<and> engine_queue s' = engine_queue s @ [new])
       \<and> (utterance s = Some u \<longrightarrow>
            trace s' = trace s @ [HandlersCleared u, EngineCancel, EngineSpeak new]
          \<and> engine_queue s' = [new])
       \<and> (utterance s = Some u \<and> u < length (utterances s) \<longrightarrow>
            uonend (utterances s' ! u) = None \<and> \<not> uonerror (utterances s' ! u)
          \<and> step (EngineEnd u) s' = s' \<and> step (EngineError u) s' = s')
       \<and> (\<not> restartInFlight s \<and> (isPlaying s \<or> force) \<and> currentText s \<noteq> [] \<longrightarrow>
            restartInFlight t \<and> engine_queue t = []
          \<and> trace t = trace s
               @ (case utterance s of None \<Rightarrow> [] | Some u \<Rightarrow> [HandlersCleared u])
               @ [EngineCancel]
          \<and> length (timers t) = Suc (length (timers s))
          \<and> restartWithNewSettingsFromCurrentPosition again t = t)"
proof -
  have "one_request r"
    unfolding r_def by (rule one_request_run) (rule one_request_initial)
  then have inv: "length (engine_queue r) \<le> 1 \<and> (\<forall>q \<in> set (engine_queue r). utterance r = Some q)"
    by (auto simp: one_request_def)
  have first: "trace s' = trace s @ [EngineSpeak new] \<and> engine_queue s' = engine_queue s @ [new]"
    if "utterance s = None"
    using that by (simp add: s'_def new_def speakChunk_no_prior)
  have repl: "trace s' = trace s @ [HandlersCleared u, EngineCancel, EngineSpeak new]
          \<and> engine_queue s' = [new]"
    if "utterance s = Some u"
    using that by (simp add: s'_def new_def speakChunk_replaces)
  have late: "uonend (utterances s' ! u) = None \<and> \<not> uonerror (utterances s' ! u)
          \<and> step (EngineEnd u) s' = s' \<and> step (EngineError u) s' = s'"
    if h: "utterance s = Some u \<and> u < length (utterances s)"
  proof -
    from h have cur: "utterance s = Some u" and u: "u < length (utterances s)" by simp_all
    have off: "uonend (utterances s' ! u) = None" "\<not> uonerror (utterances s' ! u)"
      using u by (simp_all add: s'_def speakChunk_replaces [OF cur])
    have u': "u < length (utterances s')"
      using u by (simp add: s'_def speakChunk_request)
    have gone: "u \<notin> set (engine_queue s')"
      using u by (simp add: s'_def speakChunk_replaces [OF cur])
    from off late_event_ignored [OF u' off gone] show ?thesis by simp
  qed
  have rst: "restartInFlight t \<and> engine_queue t = []
          \<and> trace t = trace s
               @ (case utterance s of None \<Rightarrow> [] | Some u \<Rightarrow> [HandlersCleared u])
               @ [EngineCancel]
          \<and> length (timers t) = Suc (length (timers s))
          \<and> restartWithNewSettingsFromCurrentPosition again t = t"
    if h: "\<not> restartInFlight s \<and> (isPlaying s \<or> force) \<and> currentText s \<noteq> []"
  proof -
    from h have a: "\<not> restartInFlight s" "isPlaying s \<or> force" "currentText s \<noteq> []"
      by simp_all
    note f = restart_cancels [OF a]
    from f(1) have "restartWithNewSettingsFromCurrentPosition again t = t"
      unfolding t_def by (rule restart_in_flight_ignored)
    with f show ?thesis by (simp add: t_def)
  qed
  from inv first repl late rst show ?thesis by blast
qed

text \<open>
  Rapid settings changes during playback of the 7000-character document, a request that
  replaces the first one, and a second restart while the first is in flight.
\<close>

theorem at_most_one_speech_request_witness:
  "length (engine_queue
      (run [LoadText doc7000, ClickPlayPause, RateChange (Some 2), VolumeChange (Some 3),
            VoiceChange ''Anna'', TimerFire 0] (initial :: char reader))) \<le> 1
   \<and> trace (speakChunk ''next'' (Some AdvanceChunk) (Some 3000) playing7000)
       = [EngineSpeak 0, HandlersCleared 0, EngineCancel, EngineSpeak 1]
   \<and> engine_queue (speakChunk ''next'' (Some AdvanceChunk) (Some 3000) playing7000) = [1]
   \<and> step (EngineEnd 0) (speakChunk ''next'' (Some AdvanceChunk) (Some 3000) playing7000)
       = speakChunk ''next'' (Some AdvanceChunk) (Some 3000) playing7000
   \<and> restartWithNewSettingsFromCurrentPosition False
        (restartWithNewSettingsFromCurrentPosition False playing7000)
       = restartWithNewSettingsFromCurrentPosition False playing7000"
proof -
  have cur: "utterance playing7000 = Some 0 \<and> 0 < length (utterances playing7000)"
    by (simp add: playing7000_eq)
  have go: "\<not> restartInFlight playing7000 \<and> (isPlaying playing7000 \<or> False)
            \<and> currentText playing7000 \<noteq> []"
    by (simp add: playing7000_eq doc7000_def)
  have tr: "trace playing7000 = [EngineSpeak 0]" "length (utterances playing7000) = 1"
    by (simp_all add: playing7000_eq)
  from at_most_one_speech_request
         [where es = "[LoadText doc7000, ClickPlayPause, RateChange (Some 2),
                       VolumeChange (Some 3), VoiceChange ''Anna'', TimerFire 0]"
            and s = playing7000 and u = 0 and force = False and again = False
            and c = "''next''" and cb = "Some AdvanceChunk" and b = "Some 3000"]
       cur go
  show ?thesis
    unfolding tr by simp
qed

subsection \<open>Settings changes after a pause\<close>

text \<open>
  Claim C4, as stated, says that no settings change restarts playback after a pause.
  The voice listener forces the restart: after a pause, a voice change and the restart
  timer put the page back into the playing state with a new speech request.
\<close>

theorem voice_change_after_pause_counterexample:
  "\<not> isPlaying (run [ClickPlayPause] playing7000)
   \<and> isPlaying (run [ClickPlayPause, VoiceChange ''Anna'', TimerFire 0] playing7000)
   \<and> engine_queue (run [ClickPlayPause, VoiceChange ''Anna'', TimerFire 0] playing7000) = [1]"
proof -
  have p: "run [ClickPlayPause] playing7000 = paused7000"
    by (simp add: paused7000_def)
  have split: "run [ClickPlayPause, VoiceChange ''Anna'', TimerFire 0] playing7000
                 = fire_timer 0 (voiceSelect_change ''Anna'' paused7000)"
    by (simp add: paused7000_def)
  let ?v = "voiceSelect_change ''Anna'' paused7000"
  let ?w = "?v\<lparr>timers := []\<rparr>"
  have fire: "fire_timer 0 ?v = playFromCurrentChunk 0 ?w"
    by (simp add: voice_after_pause fire_timer_def)
  have lo: "0 \<le> currentIndex ?w"
    unfolding voice_after_pause by (simp add: paused7000_eq)
  have hi: "currentIndex ?w < int (length (currentChunks ?w))"
    unfolding voice_after_pause by (simp add: paused7000_eq chunks_of_doc7000)
  have cur: "utterance (?w\<lparr>isPlaying := True, restartInFlight := False\<rparr>) = Some 0"
    unfolding voice_after_pause by (simp add: paused7000_eq)
  have again: "isPlaying (playFromCurrentChunk 0 ?w)
        \<and> engine_queue (playFromCurrentChunk 0 ?w) = [1]"
    unfolding playFromCurrentChunk_valid [OF lo hi]
    by (simp add: speakChunk_replaces(2) [OF cur]) (simp add: voice_after_pause)
  have stopped: "\<not> isPlaying (run [ClickPlayPause] playing7000)"
    unfolding p by (simp add: paused7000_eq)
  from stopped again show ?thesis
    unfolding split fire by (rule conjI)
qed

text \<open>
  Claim C4, amended. A click on the button while playing clears the playing flag. While
  the page is not playing, a change of the rate or of the volume is not forced and does
  nothing but store the new value: no sequence of such changes restarts playback, issues
  a request or schedules a timer. A voice change is forced: with text loaded and no
  restart in flight it cancels the engine and schedules the restart at the last boundary,
  also while paused.
\<close>

theorem settings_change_respects_pause:
  fixes s :: "'c reader" and es :: "'c event list" and v :: jsnum and name :: string
  defines "resumeAt \<equiv> (if lastBoundaryGlobalStart s \<ge> 0 then lastBoundaryGlobalStart s
                        else currentIndex s * int internalChunkSize)"
  defines "newIndex \<equiv> max 0 (resumeAt div int internalChunkSize)"
  shows "(isPlaying s \<and> currentText s \<noteq> [] \<longrightarrow> \<not> isPlaying (playPauseBtn_click s))
       \<and> (\<not> isPlaying s \<longrightarrow>
            restartWithNewSettingsFromCurrentPosition False s = s
          \<and> rateSlider_change v s = s\<lparr>rateSlider_value := v\<rparr>
          \<and> volumeSlider_change v s = s\<lparr>volumeSlider_value := v\<rparr>)
       \<and> (\<not> isPlaying s \<and> (\<forall>ev \<in> set es. is_slider_change ev) \<longrightarrow>
            \<not> isPlaying (run es s) \<and> trace (run es s) = trace s
          \<and> timers (run es s) = timers s \<and> engine_queue (run es s) = engine_queue s
          \<and> utterances (run es s) = utterances s)
       \<and> (\<not> restartInFlight s \<and> currentText s \<noteq> [] \<longrightarrow>
            timers (voiceSelect_change name s)
              = timers s @ [PlayAfter 60 (max 0 (resumeAt - newIndex * int internalChunkSize))]
          \<and> currentIndex (voiceSelect_change name s) = newIndex
          \<and> restartInFlight (voiceSelect_change name s)
          \<and> engine_queue (voiceSelect_change name s) = [])"
proof -
  have pause: "\<not> isPlaying (playPauseBtn_click s)" if "isPlaying s \<and> currentText s \<noteq> []"
    using that
    by (simp add: playPauseBtn_click_def updatePlayPauseUI_def speechSynthesis_pause_def Let_def)
  have noop: "restartWithNewSettingsFromCurrentPosition False s = s
          \<and> rateSlider_change v s = s\<lparr>rateSlider_value := v\<rparr>
          \<and> volumeSlider_change v s = s\<lparr>volumeSlider_value := v\<rparr>"
    if "\<not> isPlaying s"
    using that
    by (simp add: rateSlider_change_def volumeSlider_change_def
          restartWithNewSettingsFromCurrentPosition_def)
  have many: "\<not> isPlaying (run es s) \<and> trace (run es s) = trace s
          \<and> timers (run es s) = timers s \<and> engine_queue (run es s) = engine_queue s
          \<and> utterances (run es s) = utterances s"
    if "\<not> isPlaying s \<and> (\<forall>ev \<in> set es. is_slider_change ev)"
    using that slider_changes_paused [of s es] by simp
  have voice: "timers (voiceSelect_change name s)
              = timers s @ [PlayAfter 60 (max 0 (resumeAt - newIndex * int internalChunkSize))]
          \<and> currentIndex (voiceSelect_change name s) = newIndex
          \<and> restartInFlight (voiceSelect_change name s)
          \<and> engine_queue (voiceSelect_change name s) = []"
    if "\<not> restartInFlight s \<and> currentText s \<noteq> []"
    using that
    by (auto simp: voiceSelect_change_def restartWithNewSettingsFromCurrentPosition_def Let_def
          speechSynthesis_cancel_def clear_handlers_def resumeAt_def newIndex_def
          split: option.splits)
  from pause noop many voice show ?thesis by blast
qed

text \<open>The paused example: slider changes leave it paused, a voice change schedules a restart.\<close>

theorem settings_change_respects_pause_witness:
  "\<not> isPlaying (playPauseBtn_click playing7000)
   \<and> rateSlider_change (Some 2) paused7000 = paused7000\<lparr>rateSlider_value := Some 2\<rparr>
   \<and> \<not> isPlaying (run [RateChange (Some 2), VolumeChange (Some 0), RateChange None] paused7000)
   \<and> engine_queue (run [RateChange (Some 2), VolumeChange (Some 0), RateChange None] paused7000)
       = [0]
   \<and> timers (voiceSelect_change ''Anna'' paused7000) = [PlayAfter 60 0]"
proof -
  have a: "isPlaying playing7000 \<and> currentText playing7000 \<noteq> []"
    by (simp add: playing7000_eq doc7000_not_Nil)
  have b: "\<not> isPlaying paused7000
           \<and> (\<forall>ev \<in> set [RateChange (Some 2), VolumeChange (Some 0), RateChange None :: char event].
                 is_slider_change ev)"
    by (simp add: paused7000_eq)
  have c: "\<not> restartInFlight paused7000 \<and> currentText paused7000 \<noteq> []"
    by (simp add: paused7000_eq doc7000_not_Nil)
  have d: "timers paused7000 = []" "engine_queue paused7000 = [0]"
          "lastBoundaryGlobalStart paused7000 = 0"
    by (simp_all add: paused7000_eq)
  have w1: "\<not> isPlaying (playPauseBtn_click playing7000)"
    using settings_change_respects_pause [where s = playing7000] a by blast
  note t = settings_change_respects_pause
             [where s = paused7000 and v = "Some 2" and name = "''Anna''"
                and es = "[RateChange (Some 2), VolumeChange (Some 0), RateChange None]"]
  have w2: "rateSlider_change (Some 2) paused7000 = paused7000\<lparr>rateSlider_value := Some 2\<rparr>"
    using t b by blast
  have w3: "\<not> isPlaying (run [RateChange (Some 2), VolumeChange (Some 0), RateChange None]
                            paused7000)
     \<and> engine_queue (run [RateChange (Some 2), VolumeChange (Some 0), RateChange None] paused7000)
         = [0]"
    using t b d by metis
  have w4: "timers (voiceSelect_change ''Anna'' paused7000) = [PlayAfter 60 0]"
    using t c unfolding d by (simp add: internalChunkSize_def)
  from w1 w2 w3 w4 show ?thesis by blast
qed

subsection \<open>Boundary events and the tracked cursor\<close>

text \<open>
  Claim C5, as stated, says that the highlighted span ends at the start plus the length
  the engine reports, and that 1 is taken only when the length is absent. A boundary
  event with length 0 at index 6 of the first utterance highlights the span from 6 to 7.
\<close>

theorem boundary_zero_length_counterexample:
  "lastBoundaryGlobalStart
     (step (EngineBoundary 0 \<lparr>charIndex = Some 6, charLength = Some 0\<rparr>) playing7000) = 6
   \<and> pasteBox_selection
       (step (EngineBoundary 0 \<lparr>charIndex = Some 6, charLength = Some 0\<rparr>) playing7000) = (6, 7)
   \<and> snd (pasteBox_selection
            (step (EngineBoundary 0 \<lparr>charIndex = Some 6, charLength = Some 0\<rparr>) playing7000))
       \<noteq> lastBoundaryGlobalStart
           (step (EngineBoundary 0 \<lparr>charIndex = Some 6, charLength = Some 0\<rparr>) playing7000) + 0"
  by (simp add: playing7000_eq utterance_onboundary_def Let_def int_or_def)

text \<open>
  Claim C5, amended. For every boundary event that carries a character index, the tracked
  cursor is set to the base offset of the utterance plus that index, and the highlighted
  span ends at the start plus the reported length, with 1 taken when the length is absent
  or is 0. A speech request sets the cursor to its base offset, and as long as no
  boundary event fires the cursor is the base offset of the current utterance, whatever
  else happens.
\<close>

theorem boundary_event_tracks_cursor:
  fixes s :: "'c reader" and e :: boundary_event and es :: "'c event list"
    and u :: nat and ci b :: int and c :: "'c list" and cb :: "callback option"
  defines "base \<equiv> ubase (utterances s ! u)"
  defines "s' \<equiv> utterance_onboundary u e s"
  defines "t \<equiv> speakChunk c cb (Some b) s"
  shows "(charIndex e = Some ci \<longrightarrow>
            lastBoundaryGlobalStart s' = base + ci
          \<and> pasteBox_selection s' =
              (base + ci,
               base + ci + (case charLength e of None \<Rightarrow> 1
                            | Some l \<Rightarrow> if l = 0 then 1 else l)))
       \<and> (charIndex e = None \<longrightarrow> s' = s)
       \<and> lastBoundaryGlobalStart t = b
       \<and> utterance t = Some (length (utterances s))
       \<and> ubase (utterances t ! length (utterances s)) = b
       \<and> cursor_at_base t
       \<and> ((\<forall>ev \<in> set es. \<not> is_boundary ev) \<and> cursor_at_base s \<longrightarrow> cursor_at_base (run es s))"
proof -
  have ev: "lastBoundaryGlobalStart s' = base + ci
          \<and> pasteBox_selection s' =
              (base + ci,
               base + ci + (case charLength e of None \<Rightarrow> 1
                            | Some l \<Rightarrow> if l = 0 then 1 else l))"
    if "charIndex e = Some ci"
    using that
    by (simp add: s'_def base_def utterance_onboundary_def Let_def int_or_def)
  have no: "s' = s" if "charIndex e = None"
    using that by (simp add: s'_def utterance_onboundary_def)
  have req: "lastBoundaryGlobalStart t = b \<and> utterance t = Some (length (utterances s))
       \<and> ubase (utterances t ! length (utterances s)) = b"
    by (simp add: t_def speakChunk_request)
  have fb: "cursor_at_base t"
    unfolding t_def by (rule cursor_at_base_speakChunk)
  have quiet: "cursor_at_base (run es s)"
    if "(\<forall>ev \<in> set es. \<not> is_boundary ev) \<and> cursor_at_base s"
    using that by (simp add: cursor_at_base_run)
  from ev no req fb quiet show ?thesis by blast
qed

text \<open>
  A word boundary at index 6 with length 5 in the playing example, and a run without
  boundary events.
\<close>

theorem boundary_event_tracks_cursor_witness:
  "lastBoundaryGlobalStart
     (utterance_onboundary 0 \<lparr>charIndex = Some 6, charLength = Some 5\<rparr> playing7000) = 6
   \<and> pasteBox_selection
       (utterance_onboundary 0 \<lparr>charIndex = Some 6, charLength = Some 5\<rparr> playing7000) = (6, 11)
   \<and> cursor_at_base (run [ClickPlayPause, RateChange (Some 2), DblClick 4200] playing7000)"
proof -
  have base: "ubase (utterances playing7000 ! 0) = 0"
    by (simp add: playing7000_eq)
  have quiet: "(\<forall>ev \<in> set [ClickPlayPause, RateChange (Some 2), DblClick 4200 :: char event].
                 \<not> is_boundary ev) \<and> cursor_at_base playing7000"
    by (simp add: cursor_at_base_def playing7000_eq)
  from boundary_event_tracks_cursor
         [where s = playing7000 and u = 0 and ci = 6
            and e = "\<lparr>charIndex = Some 6, charLength = Some 5\<rparr>"
            and es = "[ClickPlayPause, RateChange (Some 2), DblClick 4200]"]
       quiet
  show ?thesis
    unfolding base by simp
qed

subsection \<open>Auto-advance\<close>

text \<open>
  Claim C6. When a chunk's utterance ends, the player increments the chunk index. If the
  new index is below the chunk count and the page is still playing, it schedules, after
  120 ms, the speech of the next chunk from in-chunk offset 0 (the whole chunk, with base
  offset \<open>index * chunkSize\<close>); otherwise the playing flag is cleared and nothing is
  scheduled, spoken or reported: playback has finished.
\<close>

theorem advance_chunk_auto_advance:
  fixes s :: "'c reader" and u :: nat
  defines "s' \<equiv> advance_chunk s"
  defines "next_index \<equiv> currentIndex s + 1"
  defines "fired \<equiv> fire_timer (length (timers s)) (advance_chunk s)"
  shows "currentIndex s' = next_index
       \<and> (next_index < int (length (currentChunks s)) \<and> isPlaying s \<longrightarrow>
            isPlaying s' \<and> timers s' = timers s @ [PlayAfter 120 0]
            \<and> trace s' = trace s \<and> engine_queue s' = engine_queue s
            \<and> utterances s' = utterances s
            \<and> (0 \<le> next_index \<longrightarrow>
                 isPlaying fired \<and> currentIndex fired = next_index
                 \<and> timers fired = timers s
                 \<and> utterance fired = Some (length (utterances s))
                 \<and> last (engine_queue fired) = length (utterances s)
                 \<and> utext (utterances fired ! length (utterances s))
                     = currentChunks s ! nat next_index
                 \<and> ubase (utterances fired ! length (utterances s))
                     = next_index * int internalChunkSize))
       \<and> (\<not> (next_index < int (length (currentChunks s)) \<and> isPlaying s) \<longrightarrow>
            \<not> isPlaying s' \<and> timers s' = timers s \<and> trace s' = trace s
            \<and> engine_queue s' = engine_queue s \<and> utterances s' = utterances s)
       \<and> (u < length (utterances s) \<and> uonend (utterances s ! u) = Some (Some AdvanceChunk) \<longrightarrow>
            step (EngineEnd u) s = advance_chunk (engine_done u s))"
proof -
  have idx: "currentIndex s' = next_index"
    by (simp add: s'_def next_index_def advance_chunk_def Let_def updatePlayPauseUI_def)
  have go: "isPlaying s' \<and> timers s' = timers s @ [PlayAfter 120 0]
            \<and> trace s' = trace s \<and> engine_queue s' = engine_queue s
            \<and> utterances s' = utterances s
            \<and> (0 \<le> next_index \<longrightarrow>
                 isPlaying fired \<and> currentIndex fired = next_index
                 \<and> timers fired = timers s
                 \<and> utterance fired = Some (length (utterances s))
                 \<and> last (engine_queue fired) = length (utterances s)
                 \<and> utext (utterances fired ! length (utterances s))
                     = currentChunks s ! nat next_index
                 \<and> ubase (utterances fired ! length (utterances s))
                     = next_index * int internalChunkSize)"
    if c: "next_index < int (length (currentChunks s))" "isPlaying s"
  proof -
    have adv: "advance_chunk s
                 = s\<lparr>currentIndex := next_index, timers := timers s @ [PlayAfter 120 0]\<rparr>"
      using c by (simp add: advance_chunk_def Let_def next_index_def)
    have now: "isPlaying s' \<and> timers s' = timers s @ [PlayAfter 120 0]
            \<and> trace s' = trace s \<and> engine_queue s' = engine_queue s
            \<and> utterances s' = utterances s"
      using c by (simp add: s'_def adv)
    have later: "isPlaying fired \<and> currentIndex fired = next_index
                 \<and> timers fired = timers s
                 \<and> utterance fired = Some (length (utterances s))
                 \<and> last (engine_queue fired) = length (utterances s)
                 \<and> utext (utterances fired ! length (utterances s))
                     = currentChunks s ! nat next_index
                 \<and> ubase (utterances fired ! length (utterances s))
                     = next_index * int internalChunkSize"
      if nn: "0 \<le> next_index"
    proof -
      let ?t = "s\<lparr>currentIndex := next_index, timers := timers s\<rparr>"
      have f: "fired = playFromCurrentChunk 0 ?t"
        by (simp add: fired_def adv fire_timer_def)
      have lo: "0 \<le> currentIndex ?t" using nn by simp
      have hi: "currentIndex ?t < int (length (currentChunks ?t))" using c by simp
      show ?thesis
        unfolding f playFromCurrentChunk_valid [OF lo hi]
        by (simp add: speakChunk_request)
    qed
    from now later show ?thesis by blast
  qed
  have stop: "\<not> isPlaying s' \<and> timers s' = timers s \<and> trace s' = trace s
            \<and> engine_queue s' = engine_queue s \<and> utterances s' = utterances s"
    if "\<not> (next_index < int (length (currentChunks s)) \<and> isPlaying s)"
    using that
    by (auto simp: s'_def advance_chunk_def Let_def next_index_def updatePlayPauseUI_def)
  have handler: "step (EngineEnd u) s = advance_chunk (engine_done u s)"
    if "u < length (utterances s) \<and> uonend (utterances s ! u) = Some (Some AdvanceChunk)"
    using that
    by (simp add: utterance_onend_def engine_done_def run_callback_def)
  from idx go stop handler show ?thesis by blast
qed

text \<open>
  The playing example at the end of its first chunk: the index becomes 1 and the timer
  speaks the second chunk with base offset 3000. At the end of the last chunk the index
  becomes 3, the chunk count, and playback stops without any report.
\<close>

theorem advance_chunk_auto_advance_witness:
  "currentIndex (advance_chunk playing7000) = 1
   \<and> timers (advance_chunk playing7000) = [PlayAfter 120 0]
   \<and> engine_queue (advance_chunk playing7000) = [0]
   \<and> utext (utterances (fire_timer 0 (advance_chunk playing7000)) ! 1) = replicate 3000 CHR ''a''
   \<and> ubase (utterances (fire_timer 0 (advance_chunk playing7000)) ! 1) = 3000
   \<and> currentIndex (advance_chunk (playing7000\<lparr>currentIndex := 2\<rparr>)) = 3
   \<and> \<not> isPlaying (advance_chunk (playing7000\<lparr>currentIndex := 2\<rparr>))
   \<and> timers (advance_chunk (playing7000\<lparr>currentIndex := 2\<rparr>)) = []
   \<and> trace (advance_chunk (playing7000\<lparr>currentIndex := 2\<rparr>)) = [EngineSpeak 0]
   \<and> step (EngineEnd 0) playing7000 = advance_chunk (engine_done 0 playing7000)"
proof -
  have f: "currentIndex playing7000 = 0" "isPlaying playing7000" "timers playing7000 = []"
      "length (utterances playing7000) = 1" "engine_queue playing7000 = [0]"
      "length (currentChunks playing7000) = 3" "trace playing7000 = [EngineSpeak 0]"
      "currentChunks playing7000 ! Suc 0 = replicate 3000 CHR ''a''"
      "uonend (utterances playing7000 ! 0) = Some (Some AdvanceChunk)"
    by (simp_all add: playing7000_eq chunks_of_doc7000)
  note go = advance_chunk_auto_advance [where s = playing7000 and u = 0]
  note stop = advance_chunk_auto_advance [where s = "playing7000\<lparr>currentIndex := 2\<rparr>" and u = 0]
  have a: "currentIndex (advance_chunk playing7000) = 1
   \<and> timers (advance_chunk playing7000) = [PlayAfter 120 0]
   \<and> engine_queue (advance_chunk playing7000) = [0]
   \<and> utext (utterances (fire_timer 0 (advance_chunk playing7000)) ! 1) = replicate 3000 CHR ''a''
   \<and> ubase (utterances (fire_timer 0 (advance_chunk playing7000)) ! 1) = 3000
   \<and> step (EngineEnd 0) playing7000 = advance_chunk (engine_done 0 playing7000)"
    using go by (simp add: f internalChunkSize_def)
  have b: "currentIndex (advance_chunk (playing7000\<lparr>currentIndex := 2\<rparr>)) = 3
   \<and> \<not> isPlaying (advance_chunk (playing7000\<lparr>currentIndex := 2\<rparr>))
   \<and> timers (advance_chunk (playing7000\<lparr>currentIndex := 2\<rparr>)) = []
   \<and> trace (advance_chunk (playing7000\<lparr>currentIndex := 2\<rparr>)) = [EngineSpeak 0]"
    using stop by (simp add: f)
  from a b show ?thesis by simp
qed

subsection \<open>Loading a document\<close>

text \<open>
  Claim C7, as stated, says that loading a document resets the playback cursor to chunk
  0, offset 0, stopped. A page that is playing and has heard a boundary at offset 6 is
  still playing after a load, its last confirmed offset is still 6 and the old request
  is still in the engine's queue.
\<close>

theorem load_keeps_playing_counterexample:
  "isPlaying (run [EngineBoundary 0 \<lparr>charIndex = Some 6, charLength = Some 5\<rparr>,
                   LoadText ''abc''] playing7000)
   \<and> lastBoundaryGlobalStart
        (run [EngineBoundary 0 \<lparr>charIndex = Some 6, charLength = Some 5\<rparr>,
              LoadText ''abc''] playing7000) = 6
   \<and> engine_queue
        (run [EngineBoundary 0 \<lparr>charIndex = Some 6, charLength = Some 5\<rparr>,
              LoadText ''abc''] playing7000) = [0]
   \<and> isPlaying (run [PasteInput ''abc''] playing7000)"
  by (simp add: playing7000_eq page_defs Let_def)

text \<open>
  Claim C7, amended. Loading a document by any of the three paths (text file, PDF, edit
  of the text area) replaces the document text wholesale, resets the chunk index to 0 and
  rebuilds the chunks from the new text. The playing flag, the last confirmed offset, the
  current utterance, the engine's queue and the timers are left as they were.
\<close>

theorem load_resets_index_and_chunks:
  fixes s :: "'c reader" and doc :: "'c list"
  shows "\<forall>t \<in> {setTextViewer doc s, renderPDFToViewer doc s, pasteBox_input doc s}.
           currentText t = doc \<and> pasteBox_value t = doc
         \<and> currentIndex t = 0
         \<and> currentChunks t = chunks_of doc \<and> concat (currentChunks t) = doc
         \<and> isPlaying t = isPlaying s
         \<and> lastBoundaryGlobalStart t = lastBoundaryGlobalStart s
         \<and> utterance t = utterance s \<and> engine_queue t = engine_queue s
         \<and> timers t = timers s \<and> trace t = trace s"
  by (simp add: setTextViewer_def renderPDFToViewer_def pasteBox_input_def buildChunks_def
        concat_chunks_of)

text \<open>Loading a three-character text into the playing example.\<close>

theorem load_resets_index_and_chunks_witness:
  "currentText (setTextViewer ''abc'' playing7000) = ''abc''
   \<and> currentIndex (setTextViewer ''abc'' playing7000) = 0
   \<and> concat (currentChunks (setTextViewer ''abc'' playing7000)) = ''abc''
   \<and> isPlaying (setTextViewer ''abc'' playing7000)
   \<and> currentText (pasteBox_input ''abc'' playing7000) = ''abc''"
proof -
  have p: "isPlaying playing7000" by (simp add: playing7000_eq)
  from load_resets_index_and_chunks [of "''abc''" playing7000] p
  show ?thesis by simp
qed

subsection \<open>Empty and out-of-range input\<close>

text \<open>
  Claim C8, as stated, treats a requested offset out of range as a no-op. A jump to
  offset 100000 in the loaded document of 7000 characters changes the state: it starts
  playback at offset 6999.
\<close>

theorem jump_out_of_range_counterexample:
  "step (DblClick 100000) loaded7000 \<noteq> loaded7000
   \<and> isPlaying (step (DblClick 100000) loaded7000)
   \<and> engine_queue (step (DblClick 100000) loaded7000) = [0]
   \<and> lastBoundaryGlobalStart (step (DblClick 100000) loaded7000) = 6999"
proof -
  have sync: "currentChunks loaded7000 = chunks_of (currentText loaded7000)"
    by (simp add: loaded7000_def)
  have lo: "(0::int) \<le> 6999" by simp
  have hi: "6999 < int (length (currentText loaded7000))"
    by (simp add: loaded7000_def doc7000_def)
  have cl: "jumpToCharIndex 100000 loaded7000 = jumpToCharIndex 6999 loaded7000"
    by (simp add: jumpToCharIndex_def Let_def loaded7000_def doc7000_def)
  have none: "utterance loaded7000 = None" "engine_queue loaded7000 = []"
    "utterances loaded7000 = []" "\<not> isPlaying loaded7000"
    by (simp_all add: loaded7000_def setTextViewer_def buildChunks_def initial_def)
  have a: "isPlaying (jumpToCharIndex 6999 loaded7000)
     \<and> engine_queue (jumpToCharIndex 6999 loaded7000) = [0]
     \<and> lastBoundaryGlobalStart (jumpToCharIndex 6999 loaded7000) = 6999"
    unfolding jumpToCharIndex_inside(2) [OF sync lo hi]
    by (simp add: speakChunk_request none)
  then have "jumpToCharIndex 6999 loaded7000 \<noteq> loaded7000"
    using none by auto
  with a show ?thesis by (simp add: cl)
qed

text \<open>
  Claim C8, amended. With no text loaded a jump changes nothing and a click on the play
  button only raises the alert; a play request against zero chunks returns with the
  playing flag cleared and issues no request and no timer. With text loaded, a jump to
  an offset out of range is not a no-op: the offset is clamped into the document, to
  \<open>[0, length - 1]\<close>, and playback starts at the clamped offset, never outside the
  document.
\<close>

theorem degenerate_input_is_safe:
  fixes s :: "'c reader" and idx off :: int
  defines "len \<equiv> int (length (currentText s))"
  defines "clamped \<equiv> max 0 (min (len - 1) idx)"
  shows "(currentText s = [] \<longrightarrow>
            jumpToCharIndex idx s = s
          \<and> playPauseBtn_click s = s\<lparr>trace := trace s @ [AlertNoText]\<rparr>)
       \<and> (currentText s = [] \<and> currentChunks s = [] \<longrightarrow>
            \<not> isPlaying (playFromCurrentChunk off s)
          \<and> currentChunks (playFromCurrentChunk off s) = []
          \<and> utterance (playFromCurrentChunk off s) = utterance s
          \<and> utterances (playFromCurrentChunk off s) = utterances s
          \<and> engine_queue (playFromCurrentChunk off s) = engine_queue s
          \<and> timers (playFromCurrentChunk off s) = timers s
          \<and> trace (playFromCurrentChunk off s) = trace s)
       \<and> (currentText s \<noteq> [] \<and> currentChunks s = chunks_of (currentText s) \<longrightarrow>
            0 \<le> clamped \<and> clamped < len
          \<and> jumpToCharIndex idx s = jumpToCharIndex clamped s
          \<and> isPlaying (jumpToCharIndex idx s)
          \<and> currentIndex (jumpToCharIndex idx s) = clamped div int internalChunkSize
          \<and> lastBoundaryGlobalStart (jumpToCharIndex idx s) = clamped
          \<and> utterance (jumpToCharIndex idx s) = Some (length (utterances s))
          \<and> ubase (utterances (jumpToCharIndex idx s) ! length (utterances s)) = clamped)"
proof -
  have empty: "jumpToCharIndex idx s = s
          \<and> playPauseBtn_click s = s\<lparr>trace := trace s @ [AlertNoText]\<rparr>"
    if "currentText s = []"
    using that by (simp add: jumpToCharIndex_def playPauseBtn_click_def)
  have silent: "\<not> isPlaying (playFromCurrentChunk off s)
          \<and> currentChunks (playFromCurrentChunk off s) = []
          \<and> utterance (playFromCurrentChunk off s) = utterance s
          \<and> utterances (playFromCurrentChunk off s) = utterances s
          \<and> engine_queue (playFromCurrentChunk off s) = engine_queue s
          \<and> timers (playFromCurrentChunk off s) = timers s
          \<and> trace (playFromCurrentChunk off s) = trace s"
    if "currentText s = [] \<and> currentChunks s = []"
    using that
    by (simp add: playFromCurrentChunk_def Let_def buildChunks_def chunks_of_Nil)
  have inside: "0 \<le> clamped \<and> clamped < len
          \<and> jumpToCharIndex idx s = jumpToCharIndex clamped s
          \<and> isPlaying (jumpToCharIndex idx s)
          \<and> currentIndex (jumpToCharIndex idx s) = clamped div int internalChunkSize
          \<and> lastBoundaryGlobalStart (jumpToCharIndex idx s) = clamped
          \<and> utterance (jumpToCharIndex idx s) = Some (length (utterances s))
          \<and> ubase (utterances (jumpToCharIndex idx s) ! length (utterances s)) = clamped"
    if h: "currentText s \<noteq> [] \<and> currentChunks s = chunks_of (currentText s)"
  proof -
    from h have ne: "currentText s \<noteq> []"
      and sync: "currentChunks s = chunks_of (currentText s)" by simp_all
    from ne have pos: "0 < len" by (simp add: len_def)
    then have lo: "0 \<le> clamped" and hi: "clamped < int (length (currentText s))"
      by (simp_all add: clamped_def len_def)
    have idem: "max 0 (min (int (length (currentText s)) - 1) clamped) = clamped"
      using lo hi by simp
    have same: "jumpToCharIndex idx s = jumpToCharIndex clamped s"
      unfolding jumpToCharIndex_def Let_def idem
      by (simp add: clamped_def len_def)
    have "isPlaying (jumpToCharIndex clamped s)
          \<and> currentIndex (jumpToCharIndex clamped s) = clamped div int internalChunkSize
          \<and> lastBoundaryGlobalStart (jumpToCharIndex clamped s) = clamped
          \<and> utterance (jumpToCharIndex clamped s) = Some (length (utterances s))
          \<and> ubase (utterances (jumpToCharIndex clamped s) ! length (utterances s)) = clamped"
      unfolding jumpToCharIndex_inside(2) [OF sync lo hi]
      by (simp add: speakChunk_request)
    with lo hi same show ?thesis by (simp add: len_def)
  qed
  from empty silent inside show ?thesis by blast
qed

text \<open>
  The empty page, and jumps beyond the end and before the start of the loaded document.
\<close>

theorem degenerate_input_is_safe_witness:
  "jumpToCharIndex 5 (initial :: char reader) = initial
   \<and> playPauseBtn_click (initial :: char reader) = initial\<lparr>trace := [AlertNoText]\<rparr>
   \<and> \<not> isPlaying (playFromCurrentChunk 0 (initial :: char reader))
   \<and> engine_queue (playFromCurrentChunk 0 (initial :: char reader)) = []
   \<and> jumpToCharIndex 100000 loaded7000 = jumpToCharIndex 6999 loaded7000
   \<and> lastBoundaryGlobalStart (jumpToCharIndex 100000 loaded7000) = 6999
   \<and> lastBoundaryGlobalStart (jumpToCharIndex (- 3) loaded7000) = 0"
proof -
  have e: "currentText (initial :: char reader) = []
           \<and> currentChunks (initial :: char reader) = []"
    "trace (initial :: char reader) = []" "engine_queue (initial :: char reader) = []"
    by (simp_all add: initial_def)
  have l: "currentText loaded7000 \<noteq> []
           \<and> currentChunks loaded7000 = chunks_of (currentText loaded7000)"
    by (simp add: loaded7000_def doc7000_not_Nil)
  have n: "int (length (currentText loaded7000)) = 7000"
    by (simp add: loaded7000_def doc7000_def)
  have a: "jumpToCharIndex 5 (initial :: char reader) = initial
   \<and> playPauseBtn_click (initial :: char reader) = initial\<lparr>trace := [AlertNoText]\<rparr>
   \<and> \<not> isPlaying (playFromCurrentChunk 0 (initial :: char reader))
   \<and> engine_queue (playFromCurrentChunk 0 (initial :: char reader)) = []"
    using degenerate_input_is_safe [where s = "initial :: char reader" and idx = 5 and off = 0] e
    by simp
  have far: "max 0 (min (int (length (currentText loaded7000)) - 1) 100000) = 6999"
    and before: "max 0 (min (int (length (currentText loaded7000)) - 1) (- 3)) = 0"
    by (simp_all add: n)
  have b: "jumpToCharIndex 100000 loaded7000 = jumpToCharIndex 6999 loaded7000
   \<and> lastBoundaryGlobalStart (jumpToCharIndex 100000 loaded7000) = 6999"
    using degenerate_input_is_safe [where s = loaded7000 and idx = 100000, unfolded far] l
    by blast
  have c: "lastBoundaryGlobalStart (jumpToCharIndex (- 3) loaded7000) = 0"
    using degenerate_input_is_safe [where s = loaded7000 and idx = "- 3", unfolded before] l
    by blast
  from a b c show ?thesis by blast
qed

subsection \<open>Zero and non-numeric slider values\<close>

text \<open>
  Claim C9. When the volume slider (or the rate slider) holds 0 or a value that is not a
  number, the next speech request is issued with volume 1 (rate 1): a volume of 0 does
  not mute playback.
\<close>

theorem speakChunk_zero_setting_is_one:
  fixes s :: "'c reader" and c :: "'c list" and cb :: "callback option" and b :: "int option"
    and off :: int
  defines "s' \<equiv> speakChunk c cb b s"
  defines "p \<equiv> playFromCurrentChunk off s"
  defines "new \<equiv> length (utterances s)"
  shows "utterance s' = Some new
       \<and> last (engine_queue s') = new
       \<and> uvolume (utterances s' ! new) = num_or (volumeSlider_value s) 1
       \<and> urate (utterances s' ! new) = num_or (rateSlider_value s) 1
       \<and> (volumeSlider_value s = Some 0 \<or> volumeSlider_value s = None
            \<longrightarrow> uvolume (utterances s' ! new) = 1)
       \<and> (rateSlider_value s = Some 0 \<or> rateSlider_value s = None
            \<longrightarrow> urate (utterances s' ! new) = 1)
       \<and> (0 \<le> currentIndex s \<and> currentIndex s < int (length (currentChunks s)) \<longrightarrow>
            utterance p = Some new \<and> last (engine_queue p) = new
          \<and> (volumeSlider_value s = Some 0 \<or> volumeSlider_value s = None
               \<longrightarrow> uvolume (utterances p ! new) = 1)
          \<and> (rateSlider_value s = Some 0 \<or> rateSlider_value s = None
               \<longrightarrow> urate (utterances p ! new) = 1))"
proof -
  have direct: "utterance s' = Some new \<and> last (engine_queue s') = new
       \<and> uvolume (utterances s' ! new) = num_or (volumeSlider_value s) 1
       \<and> urate (utterances s' ! new) = num_or (rateSlider_value s) 1"
    by (simp add: s'_def new_def speakChunk_request speakChunk_settings)
  have zero: "num_or (Some 0) 1 = 1" "num_or None 1 = 1"
    by (simp_all add: num_or_def)
  have played: "utterance p = Some new \<and> last (engine_queue p) = new
          \<and> uvolume (utterances p ! new) = num_or (volumeSlider_value s) 1
          \<and> urate (utterances p ! new) = num_or (rateSlider_value s) 1"
    if v: "0 \<le> currentIndex s \<and> currentIndex s < int (length (currentChunks s))"
  proof -
    from v have lo: "0 \<le> currentIndex s"
      and hi: "currentIndex s < int (length (currentChunks s))" by simp_all
    show ?thesis
      unfolding p_def playFromCurrentChunk_valid [OF lo hi]
      by (simp add: new_def speakChunk_request speakChunk_settings)
  qed
  from direct zero played show ?thesis by metis
qed

text \<open>
  The playing example after the volume slider is set to 0 and the rate slider to a value
  that is not a number: the request of the restart has volume 1 and rate 1.
\<close>

theorem speakChunk_zero_setting_is_one_witness:
  "uvolume (utterances (run [VolumeChange (Some 0), TimerFire 0] playing7000) ! 1) = 1
   \<and> urate (utterances (run [RateChange None, TimerFire 0] playing7000) ! 1) = 1"
proof -
  let ?v = "(volumeSlider_change (Some 0) playing7000)\<lparr>timers := []\<rparr>"
  let ?r = "(rateSlider_change None playing7000)\<lparr>timers := []\<rparr>"
  have tv: "timers (volumeSlider_change (Some 0) playing7000) = [PlayAfter 60 0]"
    and tr: "timers (rateSlider_change None playing7000) = [PlayAfter 60 0]"
    by (simp_all add: playing7000_eq page_defs doc7000_not_Nil Let_def internalChunkSize_def)
  have rv: "run [VolumeChange (Some 0), TimerFire 0] playing7000 = playFromCurrentChunk 0 ?v"
    and rr: "run [RateChange None, TimerFire 0] playing7000 = playFromCurrentChunk 0 ?r"
    by (simp_all add: fire_timer_def tv tr)
  have fv: "0 \<le> currentIndex ?v \<and> currentIndex ?v < int (length (currentChunks ?v))"
      "volumeSlider_value ?v = Some 0" "length (utterances ?v) = 1"
    and fr: "0 \<le> currentIndex ?r \<and> currentIndex ?r < int (length (currentChunks ?r))"
      "rateSlider_value ?r = None" "length (utterances ?r) = 1"
    by (simp_all add: playing7000_eq page_defs doc7000_not_Nil Let_def internalChunkSize_def
          chunks_of_doc7000)
  have a: "uvolume (utterances (playFromCurrentChunk 0 ?v) ! 1) = 1"
    using speakChunk_zero_setting_is_one [where s = ?v and off = 0] fv by simp
  have b: "urate (utterances (playFromCurrentChunk 0 ?r) ! 1) = 1"
    using speakChunk_zero_setting_is_one [where s = ?r and off = 0] fr by simp
  from a b show ?thesis
    unfolding rv rr by simp
qed

subsection \<open>The in-chunk offset is clamped\<close>

text \<open>
  Claim C10. For every call of \<^verbatim>\<open>playFromCurrentChunk\<close> with a valid chunk index, the
  requested in-chunk offset is clamped into \<open>[0, length of the chunk]\<close> before the
  chunk is sliced: the spoken text is the chunk without its first \<open>speakOffset\<close>
  characters, and the base offset of the request is
  \<open>currentIndex * chunkSize + speakOffset\<close>, whatever offset the caller passes.
\<close>

theorem playFromCurrentChunk_clamps_offset:
  fixes s :: "'c reader" and off :: int
  assumes lo: "0 \<le> currentIndex s"
      and hi: "currentIndex s < int (length (currentChunks s))"
  defines "chunkFull \<equiv> currentChunks s ! nat (currentIndex s)"
  defines "speakOffset \<equiv> max 0 (min off (int (length chunkFull)))"
  defines "s' \<equiv> playFromCurrentChunk off s"
  defines "new \<equiv> length (utterances s)"
  shows "0 \<le> speakOffset \<and> speakOffset \<le> int (length chunkFull)
       \<and> utterance s' = Some new
       \<and> last (engine_queue s') = new
       \<and> utext (utterances s' ! new) = drop (nat speakOffset) chunkFull
       \<and> ubase (utterances s' ! new) = currentIndex s * int internalChunkSize + speakOffset
       \<and> lastBoundaryGlobalStart s' = currentIndex s * int internalChunkSize + speakOffset"
  unfolding s'_def playFromCurrentChunk_valid [OF lo hi]
  by (simp add: speakChunk_request speakOffset_def chunkFull_def new_def)

text \<open>
  At the last chunk (1000 characters) of the 7000-character document: an offset of 5000
  is clamped to 1000 and an offset of -5 to 0.
\<close>

theorem playFromCurrentChunk_clamps_offset_witness:
  "utterance (playFromCurrentChunk 5000 (loaded7000\<lparr>currentIndex := 2\<rparr>)) = Some 0
   \<and> utext (utterances (playFromCurrentChunk 5000 (loaded7000\<lparr>currentIndex := 2\<rparr>)) ! 0) = []
   \<and> ubase (utterances (playFromCurrentChunk 5000 (loaded7000\<lparr>currentIndex := 2\<rparr>)) ! 0) = 7000
   \<and> utext (utterances (playFromCurrentChunk (- 5) (loaded7000\<lparr>currentIndex := 2\<rparr>)) ! 0)
       = replicate 1000 CHR ''a''
   \<and> ubase (utterances (playFromCurrentChunk (- 5) (loaded7000\<lparr>currentIndex := 2\<rparr>)) ! 0) = 6000"
proof -
  let ?s = "loaded7000\<lparr>currentIndex := 2\<rparr>"
  have lo: "0 \<le> currentIndex ?s" by simp
  have hi: "currentIndex ?s < int (length (currentChunks ?s))"
    by (simp add: loaded7000_def chunks_of_doc7000)
  have u: "length (utterances ?s) = 0"
    by (simp add: loaded7000_def initial_def)
  have c: "currentChunks ?s ! nat (currentIndex ?s) = replicate 1000 CHR ''a''"
    by (simp add: loaded7000_def chunks_of_doc7000 numeral_2_eq_2 [symmetric])
  from playFromCurrentChunk_clamps_offset [OF lo hi, of 5000]
       playFromCurrentChunk_clamps_offset [OF lo hi, of "- 5"]
  show ?thesis
    unfolding u c by (simp add: internalChunkSize_def)
qed

end
